theory Spec2Isabelle
  imports Main "HOL-Library.Sublist" "HOL-Library.Word"
begin

section \<open>The packaging helper \<^verbatim>\<open>package/src/build.py\<close>\<close>

text \<open>
  The script is a straight line of filesystem operations: it resolves two paths from its own
  location, asks whether an existing staging directory may be cleared, creates what is missing,
  stops when the release binary is absent, copies five files with \<^verbatim>\<open>cp\<close> and calls
  \<^verbatim>\<open>dpkg-deb\<close>. The embedding below follows it line by line. What the script does to
  its surroundings is made explicit: the filesystem, the lines waiting on standard input, the
  text the script itself writes, and a log of the calls that change the filesystem.

  Outside the model: symbolic links (so \<^verbatim>\<open>Path.resolve\<close> of an absolute, normalised
  path is the identity), permissions, quotas and signals. Every path the script interpolates
  into a command line is taken to be one word of that command (no blank or shell metacharacter
  in the location of the checkout), so a command line is represented by its parsed form.
  The f-strings of lines 24 to 33 nest the quote that delimits them, which Python accepts from
  version 3.12 on; the model is of the script as such an interpreter runs it.
\<close>

subsection \<open>Paths and the filesystem\<close>

text \<open>
  An absolute path is the list of its components, the root first; the root directory itself is
  the empty list. \<^verbatim>\<open>p / 'x'\<close> appends a component, \<^verbatim>\<open>p.parent\<close> drops the last one
  and leaves the root where it is, exactly as \<^const>\<open>butlast\<close> does.
\<close>

type_synonym path = "string list"

type_synonym bytes = "8 word list"

datatype node = File bytes | Dir

type_synonym filesystem = "path \<rightharpoonup> node"

definition parent :: "path \<Rightarrow> path" where
  "parent p = butlast p"

text \<open>
  In a filesystem the root is a directory and whatever exists lies in a directory that exists.
\<close>

definition wf_fs :: "filesystem \<Rightarrow> bool" where
  "wf_fs t \<longleftrightarrow> t [] = Some Dir \<and> (\<forall>p. p \<noteq> [] \<longrightarrow> t p \<noteq> None \<longrightarrow> t (parent p) = Some Dir)"

definition is_dir :: "filesystem \<Rightarrow> path \<Rightarrow> bool" where
  "is_dir t p \<longleftrightarrow> t p = Some Dir"

definition is_file :: "filesystem \<Rightarrow> path \<Rightarrow> bool" where
  "is_file t p \<longleftrightarrow> (case t p of Some (File b) \<Rightarrow> True | _ \<Rightarrow> False)"

text \<open>The tree below a directory, with paths relative to it.\<close>

definition subtree :: "filesystem \<Rightarrow> path \<Rightarrow> filesystem" where
  "subtree t d = (\<lambda>p. t (d @ p))"

text \<open>A filesystem given by a finite table, and a test of the table that makes it well formed.\<close>

definition wf_table :: "(path \<times> node) list \<Rightarrow> bool" where
  "wf_table xs \<longleftrightarrow> map_of xs [] = Some Dir \<and>
     list_all (\<lambda>(p, n). p = [] \<or> map_of xs (parent p) = Some Dir) xs"

subsection \<open>The process and its surroundings\<close>

datatype shell_cmd = Rm_r path | Cp path path | Dpkg_deb_b path path

text \<open>
  The log: a directory made by \<^verbatim>\<open>os.mkdir\<close>, and a command run by \<^verbatim>\<open>os.system\<close>
  with the exit code the command ended with. The script never reads the log; it is there so
  that a statement can say what a run did.
\<close>

datatype event = Mkdir path | System shell_cmd nat

record world =
  fs :: filesystem
  stdin :: "string list"
  stdout :: "string list"
  trace :: "event list"

text \<open>
  What a run is given besides the world: where the script lies, and the archiver. The archiver
  is an external tool; of \<^verbatim>\<open>dpkg-deb -b\<close> the model keeps that it reads the tree of the
  build directory and either fails or yields a default file name and the bytes of the package.
\<close>

record env =
  this_file :: path
  dpkg_deb :: "filesystem \<Rightarrow> (string \<times> bytes) option"

datatype py_error = EOFError | FileExistsError | FileNotFoundError | NotADirectoryError

datatype outcome = Finished | SystemExit "nat option" | Uncaught py_error

text \<open>
  The exit status of the interpreter: 0 after the last statement, 0 for \<^verbatim>\<open>SystemExit\<close>
  without a code, the code otherwise, 1 after a traceback.
\<close>

fun exit_status :: "outcome \<Rightarrow> nat" where
  "exit_status Finished = 0"
| "exit_status (SystemExit None) = 0"
| "exit_status (SystemExit (Some n)) = n mod 256"
| "exit_status (Uncaught err) = 1"

subsection \<open>The built-ins the script calls\<close>

definition newline :: string where
  "newline = [CHR 0x0A]"

definition print :: "string \<Rightarrow> world \<Rightarrow> world" where
  "print s w = w\<lparr>stdout := stdout w @ [s @ newline]\<rparr>"

text \<open>
  \<^verbatim>\<open>input(prompt)\<close> writes the prompt and reads one line without its newline; at the end
  of the input it raises \<^verbatim>\<open>EOFError\<close>.
\<close>

definition input :: "string \<Rightarrow> world \<Rightarrow> string option \<times> world" where
  "input prompt w =
     (let w' = w\<lparr>stdout := stdout w @ [prompt]\<rparr>
      in case stdin w' of
           [] \<Rightarrow> (None, w')
         | l # ls \<Rightarrow> (Some l, w'\<lparr>stdin := ls\<rparr>))"

text \<open>
  \<^verbatim>\<open>str.lower\<close>. Only the letters A to Z change here: a character outside ASCII is a
  sequence of bytes above 127 in this representation, and no such character lowers to an
  ASCII letter \<^verbatim>\<open>y\<close>, so the comparison of line 8 comes out as in Python.
\<close>

definition lower_char :: "char \<Rightarrow> char" where
  "lower_char c =
     (let n = (of_char c :: nat)
      in if 65 \<le> n \<and> n \<le> 90 then char_of (n + 32) else c)"

definition lower :: "string \<Rightarrow> string" where
  "lower s = map lower_char s"

definition os_path_exists :: "world \<Rightarrow> path \<Rightarrow> bool" where
  "os_path_exists w p \<longleftrightarrow> fs w p \<noteq> None"

text \<open>
  \<^verbatim>\<open>os.mkdir\<close> makes one directory. It raises when the path exists, and when the parent
  is not a directory: \<^verbatim>\<open>NotADirectoryError\<close> if a regular file stands on the way,
  \<^verbatim>\<open>FileNotFoundError\<close> otherwise.
\<close>

definition os_mkdir :: "path \<Rightarrow> world \<Rightarrow> py_error option \<times> world" where
  "os_mkdir p w =
     (if fs w p \<noteq> None then (Some FileExistsError, w)
      else if is_dir (fs w) (parent p)
        then (None, w\<lparr>fs := (fs w)(p \<mapsto> Dir), trace := trace w @ [Mkdir p]\<rparr>)
      else if list_ex (is_file (fs w)) (prefixes (parent p)) then (Some NotADirectoryError, w)
      else (Some FileNotFoundError, w))"

subsection \<open>The commands the script runs\<close>

text \<open>\<^verbatim>\<open>rm -r p\<close>: removes \<open>p\<close> and all below it; fails when there is no \<open>p\<close>.\<close>

definition rm_r :: "path \<Rightarrow> filesystem \<Rightarrow> nat \<times> filesystem" where
  "rm_r p t =
     (if t p = None then (1, t)
      else (0, (\<lambda>q. if prefix p q then None else t q)))"

text \<open>
  \<^verbatim>\<open>cp src dst\<close> without \<^verbatim>\<open>-r\<close>: the source must be a regular file; a destination
  that is a directory stands for the entry of the source's name in it; the target must not be
  a directory nor the source itself, and must lie in a directory. The target then holds the
  bytes of the source, whatever it held before.
\<close>

definition cp :: "path \<Rightarrow> path \<Rightarrow> filesystem \<Rightarrow> nat \<times> filesystem" where
  "cp src dst t =
     (case t src of
        None \<Rightarrow> (1, t)
      | Some Dir \<Rightarrow> (1, t)
      | Some (File b) \<Rightarrow>
          (let target = (if is_dir t dst then dst @ [last src] else dst)
           in if is_dir t target \<or> target = src \<or> \<not> is_dir t (parent target) then (1, t)
              else (0, t(target \<mapsto> File b))))"

text \<open>
  \<^verbatim>\<open>dpkg-deb -b dir out\<close>: the archiver reads the tree below \<open>dir\<close>. When it yields a
  package, the package is written to \<open>out\<close>, or under its default name into \<open>out\<close>
  when that is a directory.
\<close>

definition dpkg_deb_b :: "env \<Rightarrow> path \<Rightarrow> path \<Rightarrow> filesystem \<Rightarrow> nat \<times> filesystem" where
  "dpkg_deb_b e dir out t =
     (if \<not> is_dir t dir then (2, t)
      else case dpkg_deb e (subtree t dir) of
        None \<Rightarrow> (2, t)
      | Some (name, b) \<Rightarrow>
          (let target = (if is_dir t out then out @ [name] else out)
           in if is_dir t target \<or> \<not> is_dir t (parent target) then (2, t)
              else (0, t(target \<mapsto> File b))))"

fun run_cmd :: "env \<Rightarrow> shell_cmd \<Rightarrow> filesystem \<Rightarrow> nat \<times> filesystem" where
  "run_cmd e (Rm_r p) t = rm_r p t"
| "run_cmd e (Cp src dst) t = cp src dst t"
| "run_cmd e (Dpkg_deb_b dir out) t = dpkg_deb_b e dir out t"

text \<open>
  \<^verbatim>\<open>os.system\<close> runs the command, waits for it and returns its wait status (the exit code
  in the high byte). It raises nothing when the command fails.
\<close>

definition os_system :: "env \<Rightarrow> shell_cmd \<Rightarrow> world \<Rightarrow> nat \<times> world" where
  "os_system e c w =
     (let (code, t) = run_cmd e c (fs w)
      in (256 * code, w\<lparr>fs := t, trace := trace w @ [System c code]\<rparr>))"

subsection \<open>The script\<close>

text \<open>Lines 3, 4 and 16: the paths, from the location of the script.\<close>

definition package_dir :: "env \<Rightarrow> path" where
  "package_dir e = parent (parent (this_file e))"

definition otter_deb_path :: "env \<Rightarrow> path" where
  "otter_deb_path e = package_dir e @ [''otterlang'', ''DEBIAN'']"

definition otter_bin_path :: "env \<Rightarrow> path" where
  "otter_bin_path e = parent (package_dir e) @ [''target'', ''release'', ''otter'']"

definition metadata_names :: "string list" where
  "metadata_names = [''control'', ''changelog'', ''copyright'', ''rules'']"

definition archive_path :: "env \<Rightarrow> path" where
  "archive_path e = package_dir e @ [''otterlang.deb'']"

definition path_str :: "path \<Rightarrow> string" where
  "path_str p = (if p = [] then ''/'' else concat (map (\<lambda>c. ''/'' @ c) p))"

definition announcement :: "env \<Rightarrow> string" where
  "announcement e = ''Will create at '' @ path_str (otter_deb_path e)"

definition clear_prompt :: string where
  "clear_prompt = ''An output appears to already exist. Clear it? [y/N]: ''"

definition missing_binary_message :: string where
  "missing_binary_message = ''First you need to build the binaries''"

text \<open>Lines 6 to 9: ask, and remove the staging directory on the answer \<^verbatim>\<open>y\<close>.\<close>

definition clear_existing :: "env \<Rightarrow> world \<Rightarrow> py_error option \<times> world" where
  "clear_existing e w =
     (if os_path_exists w (otter_deb_path e) then
        (case input clear_prompt w of
           (None, w1) \<Rightarrow> (Some EOFError, w1)
         | (Some clear, w1) \<Rightarrow>
             if lower clear = ''y''
             then (None, snd (os_system e (Rm_r (otter_deb_path e)) w1))
             else (None, w1))
      else (None, w))"

text \<open>Lines 11 to 14: make the staging directory, and its parent first, when missing.\<close>

definition create_missing :: "env \<Rightarrow> world \<Rightarrow> py_error option \<times> world" where
  "create_missing e w =
     (if \<not> os_path_exists w (otter_deb_path e) then
        (case (if \<not> os_path_exists w (parent (otter_deb_path e))
               then os_mkdir (parent (otter_deb_path e)) w else (None, w)) of
           (Some err, w1) \<Rightarrow> (Some err, w1)
         | (None, w1) \<Rightarrow> os_mkdir (otter_deb_path e) w1)
      else (None, w))"

text \<open>Lines 5 to 14.\<close>

definition clear_or_create :: "env \<Rightarrow> world \<Rightarrow> py_error option \<times> world" where
  "clear_or_create e w =
     (case clear_existing e (print (announcement e) w) of
        (Some err, w1) \<Rightarrow> (Some err, w1)
      | (None, w1) \<Rightarrow> create_missing e w1)"

text \<open>Lines 24 to 28: the five copies, each exit status dropped.\<close>

definition copy_commands :: "env \<Rightarrow> shell_cmd list" where
  "copy_commands e =
     Cp (otter_bin_path e) (otter_deb_path e @ [''bin'']) #
     map (\<lambda>n. Cp (package_dir e @ [n]) (otter_deb_path e)) metadata_names"

definition archive_command :: "env \<Rightarrow> shell_cmd" where
  "archive_command e = Dpkg_deb_b (parent (otter_deb_path e)) (archive_path e)"

fun run_all :: "env \<Rightarrow> shell_cmd list \<Rightarrow> world \<Rightarrow> world" where
  "run_all e [] w = w"
| "run_all e (c # cs) w = run_all e cs (snd (os_system e c w))"

text \<open>Lines 21 and 22: the \<^verbatim>\<open>bin\<close> directory, when missing.\<close>

definition create_bin :: "env \<Rightarrow> world \<Rightarrow> py_error option \<times> world" where
  "create_bin e w =
     (if \<not> os_path_exists w (otter_deb_path e @ [''bin''])
      then os_mkdir (otter_deb_path e @ [''bin'']) w else (None, w))"

text \<open>Lines 21 to 33: the \<^verbatim>\<open>bin\<close> directory, the copies, the archiver.\<close>

definition populate_and_archive :: "env \<Rightarrow> world \<Rightarrow> outcome \<times> world" where
  "populate_and_archive e w =
     (case create_bin e w of
        (Some err, w1) \<Rightarrow> (Uncaught err, w1)
      | (None, w1) \<Rightarrow>
          (Finished, snd (os_system e (archive_command e) (run_all e (copy_commands e) w1))))"

text \<open>Lines 16 to 33: the check of the release binary guards all that follows.\<close>

definition verify_and_stage :: "env \<Rightarrow> world \<Rightarrow> outcome \<times> world" where
  "verify_and_stage e w =
     (if \<not> os_path_exists w (otter_bin_path e)
      then (SystemExit None, print missing_binary_message w)
      else populate_and_archive e w)"

text \<open>The whole script.\<close>

definition build :: "env \<Rightarrow> world \<Rightarrow> outcome \<times> world" where
  "build e w =
     (case clear_or_create e w of
        (Some err, w1) \<Rightarrow> (Uncaught err, w1)
      | (None, w1) \<Rightarrow> verify_and_stage e w1)"

text \<open>A run starts with nothing written and nothing logged.\<close>

definition start :: "filesystem \<Rightarrow> string list \<Rightarrow> world" where
  "start t lines = \<lparr>fs = t, stdin = lines, stdout = [], trace = []\<rparr>"

definition run :: "env \<Rightarrow> filesystem \<Rightarrow> string list \<Rightarrow> outcome \<times> world" where
  "run e t lines = build e (start t lines)"

subsection \<open>Vocabulary for statements about a run\<close>

text \<open>
  The paths a command may write. For \<^verbatim>\<open>cp\<close> and \<^verbatim>\<open>dpkg-deb\<close> this is the
  destination and the entries right below it, whichever of them the command picks.
\<close>

fun touches :: "shell_cmd \<Rightarrow> path \<Rightarrow> bool" where
  "touches (Rm_r p) q = prefix p q"
| "touches (Cp s d) q = (q = d \<or> q = d @ [last s])"
| "touches (Dpkg_deb_b dir out) q = (prefix out q \<and> length q \<le> Suc (length out))"

text \<open>Whether the log holds a run of a command, with whatever exit code.\<close>

fun runs :: "shell_cmd \<Rightarrow> event \<Rightarrow> bool" where
  "runs c (System c' k) = (c' = c)"
| "runs c (Mkdir p) = False"

definition ran :: "shell_cmd \<Rightarrow> world \<Rightarrow> bool" where
  "ran c w \<longleftrightarrow> list_ex (runs c) (trace w)"

text \<open>Two filesystems that hold the same wherever a path does not lie at or below \<open>a\<close>.\<close>

definition agree_off :: "path \<Rightarrow> filesystem \<Rightarrow> filesystem \<Rightarrow> bool" where
  "agree_off a t t' \<longleftrightarrow> (\<forall>q. \<not> prefix a q \<longrightarrow> t q = t' q)"

text \<open>A filesystem with the staging directory emptied, or made where there was none.\<close>

definition cleared :: "env \<Rightarrow> filesystem \<Rightarrow> filesystem" where
  "cleared e t =
     (\<lambda>q. if prefix (otter_deb_path e) q then None else t q)
       (parent (otter_deb_path e) \<mapsto> Dir, otter_deb_path e \<mapsto> Dir)"

subsection \<open>A checkout to try the script on\<close>

text \<open>
  A script at \<^verbatim>\<open>/repo/package/src/build.py\<close>, and a stand-in for the archiver that
  asks for \<^verbatim>\<open>DEBIAN/control\<close> and packs its bytes behind a magic byte. The tables list,
  in turn, the checkout, the four metadata files, the release binary, and a staging directory
  left by an earlier run with an old \<^verbatim>\<open>control\<close> and a file the script knows nothing of.
\<close>

definition example_archiver :: "filesystem \<Rightarrow> (string \<times> bytes) option" where
  "example_archiver tr =
     (case tr [''DEBIAN'', ''control''] of
        Some (File b) \<Rightarrow> Some (''otterlang_0.1.0_amd64.deb'', 0x21 # b)
      | _ \<Rightarrow> None)"

definition example_env :: env where
  "example_env =
     \<lparr>this_file = [''repo'', ''package'', ''src'', ''build.py''], dpkg_deb = example_archiver\<rparr>"

definition checkout_table :: "(path \<times> node) list" where
  "checkout_table =
     [([], Dir),
      ([''repo''], Dir),
      ([''repo'', ''package''], Dir),
      ([''repo'', ''package'', ''src''], Dir),
      ([''repo'', ''package'', ''src'', ''build.py''], File [0x69])]"

definition metadata_table :: "(path \<times> node) list" where
  "metadata_table =
     [([''repo'', ''package'', ''control''], File [1]),
      ([''repo'', ''package'', ''changelog''], File [2]),
      ([''repo'', ''package'', ''copyright''], File [3]),
      ([''repo'', ''package'', ''rules''], File [4])]"

definition binary_table :: "(path \<times> node) list" where
  "binary_table =
     [([''repo'', ''target''], Dir),
      ([''repo'', ''target'', ''release''], Dir),
      ([''repo'', ''target'', ''release'', ''otter''], File [0x7F, 0x45, 0x4C, 0x46])]"

definition stale_table :: "(path \<times> node) list" where
  "stale_table =
     [([''repo'', ''package'', ''otterlang''], Dir),
      ([''repo'', ''package'', ''otterlang'', ''DEBIAN''], Dir),
      ([''repo'', ''package'', ''otterlang'', ''DEBIAN'', ''control''], File [9]),
      ([''repo'', ''package'', ''otterlang'', ''DEBIAN'', ''postinst''], File [7])]"


definition stale_fs :: filesystem where
  "stale_fs = map_of (checkout_table @ metadata_table @ binary_table @ stale_table)"

definition fresh_fs_no_binary :: filesystem where
  "fresh_fs_no_binary = map_of (checkout_table @ metadata_table)"

definition stale_fs_no_binary :: filesystem where
  "stale_fs_no_binary = map_of (checkout_table @ metadata_table @ stale_table)"

definition bare_fs :: filesystem where
  "bare_fs = map_of (checkout_table @ binary_table)"

section \<open>Properties\<close>

subsection \<open>Paths\<close>

lemma parent_snoc: "parent (p @ [x]) = p"
  by (simp add: parent_def)

lemma parent_snoc2: "parent (p @ [x, y]) = p @ [x]"
  by (simp add: parent_def butlast_append)

lemma parent_deb: "parent (otter_deb_path e) = package_dir e @ [''otterlang'']"
  by (simp add: otter_deb_path_def parent_snoc2)

lemma bin_path_cases:
  obtains "package_dir e = []" "otter_bin_path e = [''target'', ''release'', ''otter'']"
  | r y where "package_dir e = r @ [y]" "otter_bin_path e = r @ [''target'', ''release'', ''otter'']"
proof (cases "package_dir e" rule: rev_cases)
  case Nil
  then show ?thesis using that(1) by (simp add: otter_bin_path_def parent_def)
next
  case (snoc r y)
  then show ?thesis using that(2) by (simp add: otter_bin_path_def parent_def)
qed

lemma bin_outside:
  assumes "x \<noteq> ''target''" "x \<noteq> ''release''"
  shows "\<not> prefix (package_dir e @ x # zs) (otter_bin_path e)"
  using assms by (rule_tac e = e in bin_path_cases) (auto simp: prefix_def)

lemma bin_neq:
  assumes "x \<noteq> ''target''" "x \<noteq> ''release''"
  shows "otter_bin_path e \<noteq> package_dir e @ x # zs"
  using bin_outside [OF assms, of e zs] by auto

lemma deb_not_prefix_bin: "\<not> prefix (otter_deb_path e) (otter_bin_path e)"
  using bin_outside [of "''otterlang''" e "[''DEBIAN'']"] by (simp add: otter_deb_path_def)

lemma os_system_stdout [simp]: "stdout (snd (os_system e c w)) = stdout w"
  by (simp add: os_system_def split: prod.splits)

lemma os_system_stdin [simp]: "stdin (snd (os_system e c w)) = stdin w"
  by (simp add: os_system_def split: prod.splits)

lemma os_system_fs [simp]: "fs (snd (os_system e c w)) = snd (run_cmd e c (fs w))"
  by (simp add: os_system_def split: prod.splits)

lemma os_system_trace [simp]:
  "trace (snd (os_system e c w)) = trace w @ [System c (fst (run_cmd e c (fs w)))]"
  by (simp add: os_system_def split: prod.splits)

lemma run_all_stdout [simp]: "stdout (run_all e cs w) = stdout w"
  by (induction cs arbitrary: w) simp_all

lemma run_all_stdin [simp]: "stdin (run_all e cs w) = stdin w"
  by (induction cs arbitrary: w) simp_all

lemma run_cmd_frame: "\<not> touches c q \<Longrightarrow> snd (run_cmd e c t) q = t q"
  by (cases c) (auto simp: rm_r_def cp_def dpkg_deb_b_def Let_def split: option.splits node.splits)

lemma run_all_frame: "\<forall>c\<in>set cs. \<not> touches c q \<Longrightarrow> fs (run_all e cs w) q = fs w q"
  by (induction cs arbitrary: w) (simp_all add: run_cmd_frame)

lemma os_mkdir_stdout [simp]: "stdout (snd (os_mkdir p w)) = stdout w"
  by (simp add: os_mkdir_def)

lemma os_mkdir_stdin [simp]: "stdin (snd (os_mkdir p w)) = stdin w"
  by (simp add: os_mkdir_def)

lemma os_mkdir_frame: "q \<noteq> p \<Longrightarrow> fs (snd (os_mkdir p w)) q = fs w q"
  by (simp add: os_mkdir_def)

lemma os_mkdir_ok:
  "fs w p = None \<Longrightarrow> is_dir (fs w) (parent p) \<Longrightarrow>
   os_mkdir p w = (None, w\<lparr>fs := (fs w)(p \<mapsto> Dir), trace := trace w @ [Mkdir p]\<rparr>)"
  by (simp add: os_mkdir_def)

subsection \<open>Lines 5 to 14: the four ways through\<close>

lemma clear_or_create_declined:
  assumes "fs w (otter_deb_path e) \<noteq> None" "stdin w = r # rs" "lower r \<noteq> ''y''"
  shows "clear_or_create e w =
    (None, w\<lparr>stdout := stdout w @ [announcement e @ newline, clear_prompt],
              stdin := rs\<rparr>)"
proof -
  from assms(1) obtain n where "fs w (otter_deb_path e) = Some n" by auto
  with assms(2,3) show ?thesis
    by (simp add: clear_or_create_def clear_existing_def create_missing_def os_path_exists_def
        input_def print_def)
qed

lemma wf_fs_parent: "wf_fs t \<Longrightarrow> t p \<noteq> None \<Longrightarrow> is_dir t (parent p)"
  by (cases "p = []") (auto simp: wf_fs_def is_dir_def parent_def)


lemma clear_or_create_eof:
  assumes "fs w (otter_deb_path e) \<noteq> None" "stdin w = []"
  shows "clear_or_create e w =
    (Some EOFError, w\<lparr>stdout := stdout w @ [announcement e @ newline, clear_prompt]\<rparr>)"
proof -
  from assms(1) obtain n where "fs w (otter_deb_path e) = Some n" by auto
  with assms(2) show ?thesis
    by (simp add: clear_or_create_def clear_existing_def create_missing_def os_path_exists_def
        input_def print_def)
qed

lemmas step2_defs = clear_or_create_def clear_existing_def create_missing_def os_path_exists_def
  input_def print_def os_system_def rm_r_def os_mkdir_def is_dir_def

lemma deb_neq_parent: "otter_deb_path e \<noteq> parent (otter_deb_path e)"
  by (simp add: otter_deb_path_def parent_snoc2)

lemma clear_or_create_frame:
  assumes "q \<noteq> parent (otter_deb_path e)" "\<not> prefix (otter_deb_path e) q"
  shows "fs (snd (clear_or_create e w)) q = fs w q"
proof -
  from assms(2) have "q \<noteq> otter_deb_path e" by auto
  with assms show ?thesis
    by (auto simp: step2_defs Let_def split: list.splits option.splits prod.splits if_splits)
qed

lemma clear_or_create_bin: "fs (snd (clear_or_create e w)) (otter_bin_path e) = fs w (otter_bin_path e)"
proof (rule clear_or_create_frame)
  show "otter_bin_path e \<noteq> parent (otter_deb_path e)"
    using bin_neq [of "''otterlang''" e "[]"] by (simp add: parent_deb)
  show "\<not> prefix (otter_deb_path e) (otter_bin_path e)"
    by (rule deb_not_prefix_bin)
qed

lemma clear_or_create_trace:
  "set (trace (snd (clear_or_create e w))) \<subseteq>
     set (trace w) \<union> {System (Rm_r (otter_deb_path e)) 0, Mkdir (parent (otter_deb_path e)),
       Mkdir (otter_deb_path e)}"
  by (auto simp: step2_defs Let_def split: list.splits option.splits prod.splits if_splits)

lemma clear_or_create_created:
  assumes "fs w (otter_deb_path e) = None" "\<not> is_file (fs w) (parent (otter_deb_path e))"
    "is_dir (fs w) (package_dir e)"
  shows "clear_or_create e w =
    (None, w\<lparr>stdout := stdout w @ [announcement e @ newline],
              fs := (fs w)(parent (otter_deb_path e) \<mapsto> Dir, otter_deb_path e \<mapsto> Dir),
              trace := trace w @ (if fs w (parent (otter_deb_path e)) = None
                then [Mkdir (parent (otter_deb_path e))] else []) @ [Mkdir (otter_deb_path e)]\<rparr>)"
proof (cases "fs w (parent (otter_deb_path e))")
  case None
  moreover have "parent (parent (otter_deb_path e)) = package_dir e"
    by (simp add: parent_deb parent_snoc)
  ultimately show ?thesis
    using assms(1,3) deb_neq_parent [of e]
    by (simp add: step2_defs)
next
  case (Some n)
  with assms(2) have "fs w (parent (otter_deb_path e)) = Some Dir"
    by (cases n) (simp_all add: is_file_def)
  then show ?thesis
    using assms(1) deb_neq_parent [of e]
    by (simp add: step2_defs map_upd_triv)
qed

subsection \<open>Lines 16 to 19: the check\<close>

lemma verify_missing:
  "fs w (otter_bin_path e) = None \<Longrightarrow>
   verify_and_stage e w = (SystemExit None, w\<lparr>stdout := stdout w @ [missing_binary_message @ newline]\<rparr>)"
  by (simp add: verify_and_stage_def os_path_exists_def print_def)

lemma verify_present:
  "fs w (otter_bin_path e) \<noteq> None \<Longrightarrow> verify_and_stage e w = populate_and_archive e w"
  by (auto simp: verify_and_stage_def os_path_exists_def)

subsection \<open>Copying, and a list of commands\<close>

lemma cp_failed: "fst (cp s d t) \<noteq> 0 \<Longrightarrow> snd (cp s d t) = t"
  by (auto simp: cp_def Let_def split: option.splits node.splits if_splits)



lemma run_cmd_keeps_dir:
  assumes "\<And>p. c \<noteq> Rm_r p" "is_dir t d"
  shows "is_dir (snd (run_cmd e c t)) d"
  using assms
  by (cases c) (auto simp: cp_def dpkg_deb_b_def Let_def is_dir_def split: option.splits node.splits)


lemma run_all_keeps_dir:
  assumes "\<And>c p. c \<in> set cs \<Longrightarrow> c \<noteq> Rm_r p" "is_dir (fs w) d"
  shows "is_dir (fs (run_all e cs w)) d"
  using assms by (induction cs arbitrary: w) (simp_all add: run_cmd_keeps_dir)

lemma run_all_trace_subset:
  "set (trace (run_all e cs w)) \<subseteq> set (trace w) \<union> {System c k | c k. c \<in> set cs}"
  by (induction cs arbitrary: w) (simp, fastforce)


lemma last_bin: "last (otter_bin_path e) = ''otter''"
  by (simp add: otter_bin_path_def)

lemma copy_commands_iff:
  "c \<in> set (copy_commands e) \<longleftrightarrow>
     c = Cp (otter_bin_path e) (otter_deb_path e @ [''bin'']) \<or>
     (\<exists>n\<in>set metadata_names. c = Cp (package_dir e @ [n]) (otter_deb_path e))"
  by (auto simp: copy_commands_def)


lemma metadata_not_bin: "n \<in> set metadata_names \<Longrightarrow> n \<noteq> ''bin''"
  by (auto simp: metadata_names_def)

text \<open>What the five copies leave alone.\<close>

lemma copies_frame:
  assumes "set cs \<subseteq> set (copy_commands e)"
    "q \<noteq> otter_deb_path e" "q \<noteq> otter_deb_path e @ [''bin'']"
    "q \<noteq> otter_deb_path e @ [''bin'', ''otter'']"
    "\<forall>n\<in>set metadata_names. q \<noteq> otter_deb_path e @ [n]"
  shows "fs (run_all e cs w) q = fs w q"
proof (rule run_all_frame, rule ballI)
  fix c assume "c \<in> set cs"
  with assms(1) have "c \<in> set (copy_commands e)" by auto
  with assms(2-) show "\<not> touches c q"
    by (auto simp: copy_commands_iff last_bin)
qed

lemma source_neq_deb: "package_dir e @ [n] \<noteq> otter_deb_path e @ zs"
  by (simp add: otter_deb_path_def)

lemma copies_source:
  assumes "set cs \<subseteq> set (copy_commands e)"
  shows "fs (run_all e cs w) (package_dir e @ [n]) = fs w (package_dir e @ [n])"
  using assms source_neq_deb [of e n "[]"] source_neq_deb [of e n]
  by (intro copies_frame) auto

lemma copies_bin_source:
  assumes "set cs \<subseteq> set (copy_commands e)"
  shows "fs (run_all e cs w) (otter_bin_path e) = fs w (otter_bin_path e)"
  using assms bin_neq [of "''otterlang''" e]
  by (intro copies_frame) (auto simp: otter_deb_path_def)

lemma copies_keep_dir:
  assumes "set cs \<subseteq> set (copy_commands e)" "is_dir (fs w) d"
  shows "is_dir (fs (run_all e cs w)) d"
  using assms by (intro run_all_keeps_dir) (auto simp: copy_commands_iff)


lemma other_copy_leaves_metadata:
  assumes "c \<in> set (copy_commands e)" "c \<noteq> Cp (package_dir e @ [n]) (otter_deb_path e)"
    "n \<in> set metadata_names"
  shows "\<not> touches c (otter_deb_path e @ [n])"
  using assms by (auto simp: copy_commands_iff last_bin metadata_not_bin)




subsection \<open>Lines 21 and 22\<close>

lemma create_bin_in_dir:
  assumes "is_dir (fs w) (otter_deb_path e)"
  shows "create_bin e w =
    (None, if fs w (otter_deb_path e @ [''bin'']) = None
           then w\<lparr>fs := (fs w)(otter_deb_path e @ [''bin''] \<mapsto> Dir),
                  trace := trace w @ [Mkdir (otter_deb_path e @ [''bin''])]\<rparr>
           else w)"
  using assms by (auto simp: create_bin_def os_path_exists_def os_mkdir_def parent_snoc)

lemma create_bin_frame: "q \<noteq> otter_deb_path e @ [''bin''] \<Longrightarrow> fs (snd (create_bin e w)) q = fs w q"
  by (simp add: create_bin_def os_mkdir_frame)

lemma create_bin_stdout [simp]: "stdout (snd (create_bin e w)) = stdout w"
  by (simp add: create_bin_def)

lemma create_bin_stdin [simp]: "stdin (snd (create_bin e w)) = stdin w"
  by (simp add: create_bin_def)

lemma create_bin_trace:
  "set (trace (snd (create_bin e w))) \<subseteq> set (trace w) \<union> {Mkdir (otter_deb_path e @ [''bin''])}"
  by (auto simp: create_bin_def os_mkdir_def)


subsection \<open>Every step keeps the filesystem well formed\<close>

lemma wf_fs_update:
  assumes "wf_fs t" "is_dir t (parent p)" "\<not> is_dir t p"
  shows "wf_fs (t(p \<mapsto> n))"
proof -
  from assms(1,3) have ne: "p \<noteq> []" by (auto simp: wf_fs_def is_dir_def)
  then have "length (parent p) < length p" by (simp add: parent_def)
  then have pp: "parent p \<noteq> p" by auto
  have "(t(p \<mapsto> n)) (parent q) = Some Dir" if "q \<noteq> []" "(t(p \<mapsto> n)) q \<noteq> None" for q
  proof (cases "q = p")
    case True
    with assms(2) pp show ?thesis by (simp add: is_dir_def)
  next
    case False
    with that assms(1) have "t (parent q) = Some Dir" by (simp add: wf_fs_def)
    with assms(3) show ?thesis by (auto simp: is_dir_def)
  qed
  with assms(1) ne show ?thesis by (simp add: wf_fs_def)
qed

lemma prefix_parent: "prefix p (parent q) \<Longrightarrow> prefix p q"
  unfolding parent_def by (metis prefix_order.trans prefixeq_butlast)


lemma wf_fs_cp: "wf_fs t \<Longrightarrow> wf_fs (snd (cp s d t))"
  by (auto simp: cp_def Let_def wf_fs_update split: option.splits node.splits)

lemma wf_fs_dpkg: "wf_fs t \<Longrightarrow> wf_fs (snd (dpkg_deb_b e d out t))"
  by (auto simp: dpkg_deb_b_def Let_def wf_fs_update split: option.splits node.splits)






subsection \<open>Lines 21 to 33\<close>

lemma populate_finished:
  "fst (create_bin e w) = None \<Longrightarrow> fst (populate_and_archive e w) = Finished"
  by (cases "create_bin e w") (auto simp: populate_and_archive_def split: option.splits)

lemma populate_world:
  "fst (create_bin e w) = None \<Longrightarrow>
   snd (populate_and_archive e w) =
     snd (os_system e (archive_command e) (run_all e (copy_commands e) (snd (create_bin e w))))"
  by (cases "create_bin e w") (auto simp: populate_and_archive_def split: option.splits)

lemma populate_uncaught:
  "fst (create_bin e w) = Some err \<Longrightarrow> populate_and_archive e w = (Uncaught err, snd (create_bin e w))"
  by (cases "create_bin e w") (auto simp: populate_and_archive_def split: option.splits)


lemma populate_stdout [simp]: "stdout (snd (populate_and_archive e w)) = stdout w"
  by (cases "fst (create_bin e w)") (simp_all add: populate_world populate_uncaught)

lemma archive_frame:
  "\<not> prefix (archive_path e) q \<Longrightarrow> snd (run_cmd e (archive_command e) t) q = t q"
  by (rule run_cmd_frame) (simp add: archive_command_def)

subsection \<open>The comparison of line 8\<close>

lemma lower_char_y: "lower_char c = CHR ''y'' \<longleftrightarrow> c = CHR ''y'' \<or> c = CHR ''Y''"
proof -
  have y: "c = CHR ''y'' \<longleftrightarrow> (of_char c :: nat) = 121"
    using of_char_eq_iff [of c "CHR ''y''", where ?'a = nat] by simp
  have Y: "c = CHR ''Y'' \<longleftrightarrow> (of_char c :: nat) = 89"
    using of_char_eq_iff [of c "CHR ''Y''", where ?'a = nat] by simp
  show ?thesis
  proof (cases "65 \<le> (of_char c :: nat) \<and> (of_char c :: nat) \<le> 90")
    case True
    then have "lower_char c = char_of ((of_char c :: nat) + 32)"
      by (simp add: lower_char_def)
    moreover have "char_of ((of_char c :: nat) + 32) = CHR ''y'' \<longleftrightarrow> (of_char c :: nat) + 32 = 121"
      using True by (simp add: char_of_eq_iff take_bit_eq_mod)
    ultimately show ?thesis using True y Y by auto
  next
    case False
    then have "lower_char c = c" by (auto simp: lower_char_def Let_def)
    with False y Y show ?thesis by auto
  qed
qed

lemma lower_eq_y: "lower r = ''y'' \<longleftrightarrow> r = ''y'' \<or> r = ''Y''"
proof (cases r)
  case Nil
  then show ?thesis by (simp add: lower_def)
next
  case (Cons c cs)
  then show ?thesis
    using lower_char_y [of c] by (cases cs) (auto simp: lower_def)
qed

lemma ran_iff: "ran c w \<longleftrightarrow> (\<exists>k. System c k \<in> set (trace w))"
proof
  assume "ran c w"
  then obtain ev where ev: "ev \<in> set (trace w)" and r: "runs c ev"
    unfolding ran_def list_ex_iff by blast
  from r obtain k where "ev = System c k" by (cases ev) auto
  with ev show "\<exists>k. System c k \<in> set (trace w)" by blast
next
  assume "\<exists>k. System c k \<in> set (trace w)"
  then obtain k where "System c k \<in> set (trace w)" ..
  moreover have "runs c (System c k)" by simp
  ultimately show "ran c w"
    unfolding ran_def list_ex_iff by blast
qed

subsection \<open>The archiver enters a run only through the last command\<close>

lemma paths_archiver [simp]:
  "package_dir (e\<lparr>dpkg_deb := a\<rparr>) = package_dir e"
  "otter_deb_path (e\<lparr>dpkg_deb := a\<rparr>) = otter_deb_path e"
  "otter_bin_path (e\<lparr>dpkg_deb := a\<rparr>) = otter_bin_path e"
  "archive_path (e\<lparr>dpkg_deb := a\<rparr>) = archive_path e"
  "announcement (e\<lparr>dpkg_deb := a\<rparr>) = announcement e"
  "copy_commands (e\<lparr>dpkg_deb := a\<rparr>) = copy_commands e"
  "archive_command (e\<lparr>dpkg_deb := a\<rparr>) = archive_command e"
  by (simp_all add: package_dir_def otter_deb_path_def otter_bin_path_def archive_path_def
      announcement_def copy_commands_def archive_command_def)

lemma run_cmd_archiver:
  "(\<And>d out. c \<noteq> Dpkg_deb_b d out) \<Longrightarrow> run_cmd (e\<lparr>dpkg_deb := a\<rparr>) c t = run_cmd e c t"
  by (cases c) auto

lemma os_system_archiver:
  "(\<And>d out. c \<noteq> Dpkg_deb_b d out) \<Longrightarrow> os_system (e\<lparr>dpkg_deb := a\<rparr>) c w = os_system e c w"
  by (simp add: os_system_def run_cmd_archiver)

lemma run_all_archiver:
  "(\<And>c d out. c \<in> set cs \<Longrightarrow> c \<noteq> Dpkg_deb_b d out) \<Longrightarrow>
   run_all (e\<lparr>dpkg_deb := a\<rparr>) cs w = run_all e cs w"
  by (induction cs arbitrary: w) (simp_all add: os_system_archiver)

lemma clear_existing_archiver [simp]:
  "clear_existing (e\<lparr>dpkg_deb := a\<rparr>) w = clear_existing e w"
  by (auto simp: clear_existing_def os_system_archiver split: prod.splits option.splits)

lemma create_missing_archiver [simp]:
  "create_missing (e\<lparr>dpkg_deb := a\<rparr>) w = create_missing e w"
  by (cases "os_mkdir (parent (otter_deb_path e)) w")
    (auto simp: create_missing_def split: option.splits)

lemma clear_or_create_archiver [simp]:
  "clear_or_create (e\<lparr>dpkg_deb := a\<rparr>) w = clear_or_create e w"
  by (cases "clear_existing e (print (announcement e) w)")
    (auto simp: clear_or_create_def split: option.splits)

lemma create_bin_archiver [simp]: "create_bin (e\<lparr>dpkg_deb := a\<rparr>) w = create_bin e w"
  by (simp add: create_bin_def)

lemma copies_archiver [simp]:
  "run_all (e\<lparr>dpkg_deb := a\<rparr>) (copy_commands e) w = run_all e (copy_commands e) w"
  by (rule run_all_archiver) (auto simp: copy_commands_iff)

lemma build_stdout:
  "stdout (snd (build e w)) = stdout (snd (clear_or_create e w)) @
     (if fst (clear_or_create e w) = None \<and> fs w (otter_bin_path e) = None
      then [missing_binary_message @ newline] else [])"
proof (cases "clear_or_create e w")
  case (Pair r w1)
  then have "fs w1 (otter_bin_path e) = fs w (otter_bin_path e)"
    using clear_or_create_bin [of e w] by simp
  with Pair show ?thesis
    by (cases r; cases "fs w (otter_bin_path e) = None")
      (simp_all add: build_def verify_missing verify_present)
qed

lemma build_outcome:
  "fst (build e w) =
     (case fst (clear_or_create e w) of
        Some err \<Rightarrow> Uncaught err
      | None \<Rightarrow> if fs w (otter_bin_path e) = None then SystemExit None
          else (case fst (create_bin e (snd (clear_or_create e w))) of
                  Some err \<Rightarrow> Uncaught err | None \<Rightarrow> Finished))"
proof (cases "clear_or_create e w")
  case (Pair r w1)
  then have "fs w1 (otter_bin_path e) = fs w (otter_bin_path e)"
    using clear_or_create_bin [of e w] by simp
  with Pair show ?thesis
    by (cases r; cases "fs w (otter_bin_path e) = None"; cases "fst (create_bin e w1)")
      (simp_all add: build_def verify_missing verify_present populate_finished populate_uncaught)
qed

lemma build_outcome_archiver: "fst (build (e\<lparr>dpkg_deb := a\<rparr>) w) = fst (build e w)"
  by (cases "fst (clear_or_create e w)"; cases "fst (create_bin e (snd (clear_or_create e w)))")
    (simp_all add: build_outcome)

lemma build_stdout_archiver:
  "stdout (snd (build (e\<lparr>dpkg_deb := a\<rparr>) w)) = stdout (snd (build e w))"
  by (simp add: build_stdout)

subsection \<open>Whole runs\<close>

text \<open>What a whole run logs: at least what lines 5 to 14 log, and besides that only the
  \<^verbatim>\<open>bin\<close> directory, the copies and the archiver.\<close>

lemma start_fields [simp]:
  "fs (start t ls) = t" "stdin (start t ls) = ls" "stdout (start t ls) = []" "trace (start t ls) = []"
  by (simp_all add: start_def)

lemma wf_table_wf_fs: "wf_table xs \<Longrightarrow> wf_fs (map_of xs)"
  unfolding wf_table_def wf_fs_def list_all_iff
  by (auto dest!: map_of_SomeD)

lemma run_all_trace_mono: "set (trace w) \<subseteq> set (trace (run_all e cs w))"
proof (induction cs arbitrary: w)
  case Nil
  show ?case by simp
next
  case (Cons c cs)
  have "set (trace w) \<subseteq> set (trace (snd (os_system e c w)))" by auto
  also have "\<dots> \<subseteq> set (trace (run_all e cs (snd (os_system e c w))))" by (rule Cons.IH)
  finally show ?case by simp
qed

lemma stage_trace_lower: "set (trace w) \<subseteq> set (trace (snd (verify_and_stage e w)))"
proof (cases "fs w (otter_bin_path e) = None")
  case True
  then show ?thesis by (simp add: verify_missing)
next
  case False
  show ?thesis
  proof (cases "fst (create_bin e w)")
    case None
    have "set (trace w) \<subseteq> set (trace (snd (create_bin e w)))"
      by (auto simp: create_bin_def os_mkdir_def)
    also have "\<dots> \<subseteq> set (trace (run_all e (copy_commands e) (snd (create_bin e w))))"
      by (rule run_all_trace_mono)
    finally show ?thesis
      using False None by (auto simp: verify_present populate_world)
  next
    case (Some err)
    then have "snd (create_bin e w) = w"
      by (auto simp: create_bin_def os_mkdir_def split: if_splits)
    with False Some show ?thesis by (simp add: verify_present populate_uncaught)
  qed
qed

lemma stage_trace_upper:
  "set (trace (snd (verify_and_stage e w))) \<subseteq>
     set (trace w) \<union> {Mkdir (otter_deb_path e @ [''bin''])} \<union>
     {System c k | c k. c \<in> set (copy_commands e) \<or> c = archive_command e}"
proof (cases "fs w (otter_bin_path e) = None")
  case True
  then show ?thesis by (auto simp: verify_missing)
next
  case False
  show ?thesis
  proof (cases "fst (create_bin e w)")
    case None
    have "set (trace (run_all e (copy_commands e) (snd (create_bin e w)))) \<subseteq>
        set (trace (snd (create_bin e w))) \<union> {System c k | c k. c \<in> set (copy_commands e)}"
      by (rule run_all_trace_subset)
    with create_bin_trace [of e w] show ?thesis
      using False None by (auto simp: verify_present populate_world)
  next
    case (Some err)
    with create_bin_trace [of e w] False show ?thesis
      by (auto simp: verify_present populate_uncaught)
  qed
qed

lemma build_cases:
  obtains err where "fst (clear_or_create e w) = Some err"
      "build e w = (Uncaught err, snd (clear_or_create e w))"
  | "fst (clear_or_create e w) = None"
      "build e w = verify_and_stage e (snd (clear_or_create e w))"
  by (cases "clear_or_create e w"; cases "fst (clear_or_create e w)") (auto simp: build_def)

lemma build_trace_lower: "set (trace (snd (clear_or_create e w))) \<subseteq> set (trace (snd (build e w)))"
  by (rule build_cases [of e w]) (simp_all add: stage_trace_lower)

lemma build_trace_upper:
  "set (trace (snd (build e w))) \<subseteq>
     set (trace (snd (clear_or_create e w))) \<union> {Mkdir (otter_deb_path e @ [''bin''])} \<union>
     {System c k | c k. c \<in> set (copy_commands e) \<or> c = archive_command e}"
  by (rule build_cases [of e w]) (use stage_trace_upper in auto)

lemma ran_rm_build:
  "ran (Rm_r p) (snd (build e w)) \<longleftrightarrow> ran (Rm_r p) (snd (clear_or_create e w))"
proof
  assume "ran (Rm_r p) (snd (build e w))"
  then obtain k where "System (Rm_r p) k \<in> set (trace (snd (build e w)))"
    by (auto simp: ran_iff)
  with build_trace_upper [of e w] have "System (Rm_r p) k \<in> set (trace (snd (clear_or_create e w)))"
    by (auto simp: copy_commands_iff archive_command_def)
  then show "ran (Rm_r p) (snd (clear_or_create e w))" by (auto simp: ran_iff)
next
  assume "ran (Rm_r p) (snd (clear_or_create e w))"
  with build_trace_lower [of e w] show "ran (Rm_r p) (snd (build e w))"
    by (auto simp: ran_iff)
qed

lemma clear_or_create_accepted_trace:
  assumes "fs w (otter_deb_path e) \<noteq> None" "stdin w = r # rs" "lower r = ''y''"
  shows "System (Rm_r (otter_deb_path e)) 0 \<in> set (trace (snd (clear_or_create e w)))"
proof -
  from assms(1) obtain n where "fs w (otter_deb_path e) = Some n" by auto
  with assms(2,3) show ?thesis
    by (auto simp: step2_defs Let_def split: option.splits prod.splits if_splits)
qed

subsection \<open>Runs without the release binary\<close>

lemma build_missing_binary:
  assumes "fs w (otter_bin_path e) = None" "fst (clear_or_create e w) = None"
  shows "build e w = (SystemExit None, (snd (clear_or_create e w))
        \<lparr>stdout := stdout (snd (clear_or_create e w)) @ [missing_binary_message @ newline]\<rparr>)"
proof -
  have "fs (snd (clear_or_create e w)) (otter_bin_path e) = None"
    using assms(1) by (simp add: clear_or_create_bin)
  then show ?thesis
    using assms(2) by (cases "clear_or_create e w") (simp add: build_def verify_missing)
qed

lemma build_missing_binary_trace:
  assumes "fs w (otter_bin_path e) = None"
  shows "trace (snd (build e w)) = trace (snd (clear_or_create e w))"
proof (cases "fst (clear_or_create e w)")
  case None
  show ?thesis by (simp add: build_missing_binary [OF assms None])
next
  case (Some err)
  then have "build e w = (Uncaught err, snd (clear_or_create e w))"
    by (cases "clear_or_create e w") (simp add: build_def)
  then show ?thesis by simp
qed

lemma build_missing_binary_fs:
  assumes "fs w (otter_bin_path e) = None"
  shows "fs (snd (build e w)) = fs (snd (clear_or_create e w))"
proof (cases "fst (clear_or_create e w)")
  case None
  show ?thesis by (simp add: build_missing_binary [OF assms None])
next
  case (Some err)
  then have "build e w = (Uncaught err, snd (clear_or_create e w))"
    by (cases "clear_or_create e w") (simp add: build_def)
  then show ?thesis by simp
qed

lemma created_then_ok:
  assumes "Mkdir (otter_deb_path e) \<in> set (trace (snd (clear_or_create e w)))"
    "Mkdir (otter_deb_path e) \<notin> set (trace w)"
  shows "fst (clear_or_create e w) = None \<and>
    fs (snd (clear_or_create e w)) (otter_deb_path e) = Some Dir"
  using assms deb_neq_parent [of e]
  by (auto simp: step2_defs Let_def split: list.splits option.splits prod.splits if_splits)

lemma os_mkdir_stdoutD: "os_mkdir p w = (r, w1) \<Longrightarrow> stdout w1 = stdout w"
  by (auto simp: os_mkdir_def split: if_splits)

lemma create_missing_stdout [simp]: "stdout (snd (create_missing e w)) = stdout w"
  by (auto simp: create_missing_def split: prod.splits option.splits dest!: os_mkdir_stdoutD)

lemma clear_existing_stdout:
  "set (stdout (snd (clear_existing e w))) \<subseteq> set (stdout w) \<union> {clear_prompt}"
  by (auto simp: clear_existing_def input_def Let_def split: list.splits)

lemma clear_or_create_stdout:
  "set (stdout (snd (clear_or_create e w))) \<subseteq>
     set (stdout w) \<union> {announcement e @ newline, clear_prompt}"
proof (cases "clear_existing e (print (announcement e) w)")
  case (Pair r w1)
  with clear_existing_stdout [of e "print (announcement e) w"]
  have "set (stdout w1) \<subseteq> set (stdout w) \<union> {announcement e @ newline, clear_prompt}"
    by (auto simp: print_def)
  with Pair show ?thesis
    by (cases r) (simp_all add: clear_or_create_def)
qed

lemma message_not_announcement: "missing_binary_message @ newline \<noteq> announcement e @ newline"
  by (simp add: missing_binary_message_def announcement_def)

lemma message_not_prompt: "missing_binary_message @ newline \<noteq> clear_prompt"
  by (simp add: missing_binary_message_def clear_prompt_def)

lemma finished_binary_present:
  assumes "fst (build e w) = Finished"
  shows "fs w (otter_bin_path e) \<noteq> None"
proof
  assume bin: "fs w (otter_bin_path e) = None"
  show False
  proof (cases "fst (clear_or_create e w)")
    case None
    with assms show False by (simp add: build_missing_binary [OF bin None])
  next
    case (Some err)
    then have "build e w = (Uncaught err, snd (clear_or_create e w))"
      by (cases "clear_or_create e w") (simp add: build_def)
    with assms show False by simp
  qed
qed

lemma finished_no_message:
  assumes "fst (run e t ls) = Finished"
  shows "missing_binary_message @ newline \<notin> set (stdout (snd (run e t ls)))"
proof -
  from assms have "fs (start t ls) (otter_bin_path e) \<noteq> None"
    unfolding run_def by (rule finished_binary_present)
  then have "stdout (snd (run e t ls)) = stdout (snd (clear_or_create e (start t ls)))"
    by (simp add: run_def build_stdout)
  with clear_or_create_stdout [of e "start t ls"] show ?thesis
    using message_not_announcement [of e] message_not_prompt by auto
qed

lemma no_copy_before_check:
  assumes "trace w = []" "c \<in> set (copy_commands e) \<or> c = archive_command e"
  shows "\<not> ran c (snd (clear_or_create e w))"
proof
  assume "ran c (snd (clear_or_create e w))"
  then obtain k where "System c k \<in> set (trace (snd (clear_or_create e w)))"
    by (auto simp: ran_iff)
  with clear_or_create_trace [of e w] assms(1) have "c = Rm_r (otter_deb_path e)" by auto
  with assms(2) show False by (auto simp: copy_commands_iff archive_command_def)
qed

subsection \<open>Runs that reach the end\<close>

lemma metadata_plain: "n \<in> set metadata_names \<Longrightarrow> n \<noteq> ''otterlang'' \<and> n \<noteq> ''otterlang.deb''"
  by (auto simp: metadata_names_def)


lemma archive_path_not_below_deb: "\<not> prefix (archive_path e) (otter_deb_path e @ q)"
  by (simp add: archive_path_def otter_deb_path_def)

lemma archive_path_not_source:
  "n \<in> set metadata_names \<Longrightarrow> \<not> prefix (archive_path e) (package_dir e @ [n])"
  by (auto simp: archive_path_def dest: metadata_plain)


lemma create_bin_keeps_deb:
  "is_dir (fs w) (otter_deb_path e) \<Longrightarrow> is_dir (fs (snd (create_bin e w))) (otter_deb_path e)"
  using create_bin_frame [of "otter_deb_path e" e w] by (simp add: is_dir_def)


lemma build_trace_start:
  assumes "trace w = []"
  shows "set (trace (snd (clear_or_create e w))) \<subseteq>
    {System (Rm_r (otter_deb_path e)) 0, Mkdir (parent (otter_deb_path e)), Mkdir (otter_deb_path e)}"
  using clear_or_create_trace [of e w] assms by simp

text \<open>Lines 21 to 33 on a staging directory that is there.\<close>

lemma populate_in_dir:
  assumes "is_dir (fs w) (otter_deb_path e)"
  shows "fst (populate_and_archive e w) = Finished"
    and "snd (populate_and_archive e w) =
      snd (os_system e (archive_command e) (run_all e (copy_commands e) (snd (create_bin e w))))"
  using create_bin_in_dir [OF assms] by (simp_all add: populate_finished populate_world)



lemma populate_frame:
  assumes dir: "is_dir (fs w) (otter_deb_path e)"
    and q: "q \<notin> set ([[''bin''], [''bin'', ''otter'']] @ map (\<lambda>n. [n]) metadata_names)"
  shows "fs (snd (populate_and_archive e w)) (otter_deb_path e @ q) = fs w (otter_deb_path e @ q)"
proof (cases "q = []")
  case True
  have "is_dir (fs (run_all e (copy_commands e) (snd (create_bin e w)))) (otter_deb_path e)"
    using create_bin_keeps_deb [OF dir] by (intro copies_keep_dir) simp_all
  then show ?thesis
    using archive_frame [OF archive_path_not_below_deb [of e "[]"]] dir True
    by (simp add: populate_in_dir(2) [OF dir] is_dir_def)
next
  case False
  have "fs (run_all e (copy_commands e) (snd (create_bin e w))) (otter_deb_path e @ q) =
      fs (snd (create_bin e w)) (otter_deb_path e @ q)"
    using q False by (intro copies_frame) auto
  then show ?thesis
    using archive_frame [OF archive_path_not_below_deb [of e q]] q
    by (simp add: populate_in_dir(2) [OF dir] create_bin_frame)
qed






subsection \<open>A fresh start\<close>

lemma wf_fs_absent_below: "wf_fs t \<Longrightarrow> t p = None \<Longrightarrow> t (p @ q) = None"
proof (induction q rule: rev_induct)
  case Nil
  then show ?case by simp
next
  case (snoc x xs)
  show ?case
  proof (rule ccontr)
    assume "t (p @ xs @ [x]) \<noteq> None"
    with wf_fs_parent [OF snoc.prems(1), of "p @ xs @ [x]"] have "is_dir t (p @ xs)"
      by (simp add: parent_def butlast_append)
    with snoc show False by (simp add: is_dir_def)
  qed
qed

lemma script_in_package_dir:
  assumes "wf_fs t" "t (this_file e) \<noteq> None"
  shows "is_dir t (package_dir e)"
proof -
  from assms have "is_dir t (parent (this_file e))" by (rule wf_fs_parent)
  then have "t (parent (this_file e)) \<noteq> None" by (simp add: is_dir_def)
  with assms(1) show ?thesis unfolding package_dir_def by (rule wf_fs_parent)
qed

lemma archive_path_facts:
  "archive_path e \<noteq> parent (otter_deb_path e)"
  "\<not> prefix (otter_deb_path e) (archive_path e)"
  "archive_path e \<noteq> otter_deb_path e @ q"
  "parent (archive_path e) = package_dir e"
  by (simp_all add: archive_path_def otter_deb_path_def parent_snoc parent_snoc2)


lemma populate_leaves_archive_path:
  assumes "is_dir (fs w) (otter_deb_path e)"
  shows "fs (run_all e (copy_commands e) (snd (create_bin e w))) (archive_path e) = fs w (archive_path e)"
proof -
  have "fs (run_all e (copy_commands e) (snd (create_bin e w))) (archive_path e) =
      fs (snd (create_bin e w)) (archive_path e)"
    using archive_path_facts(3) [of e] archive_path_facts(3) [of e "[]"]
    by (intro copies_frame) auto
  then show ?thesis
    using archive_path_facts(3) [of e "[''bin'']"] by (simp add: create_bin_frame)
qed



lemma fresh_run:
  assumes "wf_fs t" "t (this_file e) \<noteq> None" "t (otter_deb_path e) = None"
    "\<not> is_file t (parent (otter_deb_path e))" "t (otter_bin_path e) \<noteq> None"
  obtains w1 where "run e t ls = populate_and_archive e w1"
    "fs w1 = t(parent (otter_deb_path e) \<mapsto> Dir, otter_deb_path e \<mapsto> Dir)"
    "set (trace w1) \<subseteq> {Mkdir (parent (otter_deb_path e)), Mkdir (otter_deb_path e)}"
proof -
  let ?w1 = "start t ls
      \<lparr>stdout := [announcement e @ newline],
       fs := t(parent (otter_deb_path e) \<mapsto> Dir, otter_deb_path e \<mapsto> Dir),
       trace := (if t (parent (otter_deb_path e)) = None
         then [Mkdir (parent (otter_deb_path e))] else []) @ [Mkdir (otter_deb_path e)]\<rparr>"
  have pd: "is_dir (fs (start t ls)) (package_dir e)"
    using script_in_package_dir [OF assms(1,2)] by simp
  have step2: "clear_or_create e (start t ls) = (None, ?w1)"
    using clear_or_create_created [of "start t ls" e] assms(3,4) pd by simp
  have "fs ?w1 (otter_bin_path e) = t (otter_bin_path e)"
    using clear_or_create_bin [of e "start t ls"] step2 by simp
  with assms(5) have "run e t ls = populate_and_archive e ?w1"
    by (simp add: run_def build_def step2 verify_present)
  moreover have "fs ?w1 = t(parent (otter_deb_path e) \<mapsto> Dir, otter_deb_path e \<mapsto> Dir)"
    by simp
  moreover have "set (trace ?w1) \<subseteq> {Mkdir (parent (otter_deb_path e)), Mkdir (otter_deb_path e)}"
    by auto
  ultimately show ?thesis by (rule that)
qed

lemma made_below:
  assumes "wf_fs t" "t (otter_deb_path e) = None"
  shows "(t(parent (otter_deb_path e) \<mapsto> Dir, otter_deb_path e \<mapsto> Dir)) (otter_deb_path e @ x # q) = None"
proof -
  have "otter_deb_path e @ x # q \<noteq> otter_deb_path e"
    "otter_deb_path e @ x # q \<noteq> parent (otter_deb_path e)"
    by (simp_all add: otter_deb_path_def parent_snoc2)
  then show ?thesis
    using wf_fs_absent_below [OF assms, of "x # q"] by simp
qed


lemma copies_skip_metadata:
  assumes "set cs \<subseteq> set (copy_commands e)" "n \<in> set metadata_names"
    "fs w (package_dir e @ [n]) = None"
  shows "fs (run_all e cs w) (otter_deb_path e @ [n]) = fs w (otter_deb_path e @ [n])"
  using assms
proof (induction cs arbitrary: w)
  case Nil
  then show ?case by simp
next
  case (Cons c cs)
  let ?w = "snd (os_system e c w)"
  from Cons.prems(1) have c: "c \<in> set (copy_commands e)" and cs: "set cs \<subseteq> set (copy_commands e)"
    by auto
  have src: "fs ?w (package_dir e @ [n]) = None"
    using copies_source [of "[c]" e w n] c Cons.prems(3) by simp
  have "fs ?w (otter_deb_path e @ [n]) = fs w (otter_deb_path e @ [n])"
  proof (cases "c = Cp (package_dir e @ [n]) (otter_deb_path e)")
    case True
    with Cons.prems(3) show ?thesis by (simp add: cp_def)
  next
    case False
    with c Cons.prems(2) have "\<not> touches c (otter_deb_path e @ [n])"
      by (intro other_copy_leaves_metadata)
    then show ?thesis by (simp add: run_cmd_frame)
  qed
  with Cons.IH [OF cs Cons.prems(2) src] show ?case by simp
qed

lemma archive_fails:
  assumes "dpkg_deb e (subtree u (parent (otter_deb_path e))) = None"
  shows "run_cmd e (archive_command e) u = (2, u)"
  using assms by (simp add: archive_command_def dpkg_deb_b_def)


subsection \<open>Filesystems that agree off the archive\<close>

lemma agree_off_refl: "agree_off a t t"
  by (simp add: agree_off_def)

lemma agree_off_sym: "agree_off a t t' \<Longrightarrow> agree_off a t' t"
  by (simp add: agree_off_def)

lemma agree_off_trans: "agree_off a t t' \<Longrightarrow> agree_off a t' t'' \<Longrightarrow> agree_off a t t''"
  by (simp add: agree_off_def)

lemma agree_offD: "agree_off a t t' \<Longrightarrow> \<not> prefix a q \<Longrightarrow> t q = t' q"
  by (simp add: agree_off_def)

lemma agree_off_update:
  "agree_off a t t' \<Longrightarrow> agree_off a (t(p \<mapsto> n)) (t'(p \<mapsto> n))"
  by (simp add: agree_off_def)

lemma cp_agree:
  assumes agree: "agree_off a t t'"
    and s: "\<not> prefix a s" and d: "\<not> prefix a d" and x: "a \<noteq> d @ [last s]"
  shows "agree_off a (snd (cp s d t)) (snd (cp s d t'))"
proof -
  have src: "t s = t' s" using agree s by (rule agree_offD)
  have dst: "t d = t' d" using agree d by (rule agree_offD)
  let ?target = "if is_dir t d then d @ [last s] else d"
  have off: "\<not> prefix a ?target" using d x by auto
  then have off': "\<not> prefix a (parent ?target)" by (blast dest: prefix_parent)
  have tg: "t ?target = t' ?target" using agree off by (rule agree_offD)
  have tp: "t (parent ?target) = t' (parent ?target)" using agree off' by (rule agree_offD)
  have same: "is_dir t' d = is_dir t d" by (simp add: is_dir_def dst)
  show ?thesis
  proof (cases "t s")
    case None
    with src agree show ?thesis by (simp add: cp_def)
  next
    case (Some n)
    show ?thesis
    proof (cases n)
      case Dir
      with Some src agree show ?thesis by (simp add: cp_def)
    next
      case (File b)
      have "cp s d t = (if is_dir t ?target \<or> ?target = s \<or> \<not> is_dir t (parent ?target)
          then (1, t) else (0, t(?target \<mapsto> File b)))"
        using Some File by (simp add: cp_def Let_def)
      moreover have "cp s d t' = (if is_dir t ?target \<or> ?target = s \<or> \<not> is_dir t (parent ?target)
          then (1, t') else (0, t'(?target \<mapsto> File b)))"
        using Some File src same tg tp by (simp add: cp_def Let_def is_dir_def)
      ultimately show ?thesis
        using agree by (simp add: agree_off_update)
    qed
  qed
qed

lemma copies_agree:
  assumes "set cs \<subseteq> set (copy_commands e)" "agree_off (archive_path e) (fs w) (fs w')"
  shows "agree_off (archive_path e) (fs (run_all e cs w)) (fs (run_all e cs w'))"
  using assms
proof (induction cs arbitrary: w w')
  case Nil
  then show ?case by simp
next
  case (Cons c cs)
  from Cons.prems(1) have c: "c \<in> set (copy_commands e)" and cs: "set cs \<subseteq> set (copy_commands e)"
    by auto
  have "agree_off (archive_path e) (snd (run_cmd e c (fs w))) (snd (run_cmd e c (fs w')))"
  proof -
    from c consider "c = Cp (otter_bin_path e) (otter_deb_path e @ [''bin''])"
      | n where "n \<in> set metadata_names" "c = Cp (package_dir e @ [n]) (otter_deb_path e)"
      by (auto simp: copy_commands_iff)
    then show ?thesis
    proof cases
      case 1
      have "\<not> prefix (archive_path e) (otter_bin_path e)"
        using bin_outside [of "''otterlang.deb''" e "[]"] by (simp add: archive_path_def)
      moreover have "\<not> prefix (archive_path e) (otter_deb_path e @ [''bin''])"
        by (rule archive_path_not_below_deb)
      moreover have "archive_path e \<noteq> (otter_deb_path e @ [''bin'']) @ [last (otter_bin_path e)]"
        using archive_path_facts(3) [of e "[''bin'', ''otter'']"] by (simp add: last_bin)
      ultimately show ?thesis
        using Cons.prems(2) by (simp add: 1 cp_agree)
    next
      case 2
      have "\<not> prefix (archive_path e) (package_dir e @ [n])"
        using 2(1) by (rule archive_path_not_source)
      moreover have "\<not> prefix (archive_path e) (otter_deb_path e)"
        using archive_path_not_below_deb [of e "[]"] by simp
      moreover have "archive_path e \<noteq> otter_deb_path e @ [last (package_dir e @ [n])]"
        using archive_path_facts(3) [of e "[n]"] by simp
      ultimately show ?thesis
        using Cons.prems(2) by (simp add: 2 cp_agree)
    qed
  qed
  then have "agree_off (archive_path e) (fs (snd (os_system e c w))) (fs (snd (os_system e c w')))"
    by simp
  from Cons.IH [OF cs this] show ?case by simp
qed

lemma archive_agree: "agree_off (archive_path e) (snd (run_cmd e (archive_command e) t)) t"
  by (simp add: agree_off_def archive_frame)

lemma populate_agree:
  assumes "is_dir (fs w) (otter_deb_path e)" "is_dir (fs w') (otter_deb_path e)"
    "agree_off (archive_path e) (fs w) (fs w')"
  shows "agree_off (archive_path e) (fs (snd (populate_and_archive e w)))
    (fs (snd (populate_and_archive e w')))"
proof -
  let ?wb = "snd (create_bin e w)" and ?wb' = "snd (create_bin e w')"
  have "fs w (otter_deb_path e @ [''bin'']) = fs w' (otter_deb_path e @ [''bin''])"
    using assms(3) archive_path_not_below_deb by (rule agree_offD)
  then have "agree_off (archive_path e) (fs ?wb) (fs ?wb')"
    using assms(3) by (simp add: create_bin_in_dir [OF assms(1)] create_bin_in_dir [OF assms(2)]
        agree_off_update)
  then have "agree_off (archive_path e) (fs (run_all e (copy_commands e) ?wb))
      (fs (run_all e (copy_commands e) ?wb'))"
    by (intro copies_agree) simp_all
  then have "agree_off (archive_path e)
      (snd (run_cmd e (archive_command e) (fs (run_all e (copy_commands e) ?wb))))
      (snd (run_cmd e (archive_command e) (fs (run_all e (copy_commands e) ?wb'))))"
    by (meson archive_agree agree_off_sym agree_off_trans)
  then show ?thesis
    by (simp add: populate_in_dir(2) [OF assms(1)] populate_in_dir(2) [OF assms(2)])
qed

lemma stage_agree:
  assumes "is_dir (fs w) (otter_deb_path e)" "is_dir (fs w') (otter_deb_path e)"
    "agree_off (archive_path e) (fs w) (fs w')"
  shows "agree_off (archive_path e) (fs (snd (verify_and_stage e w)))
    (fs (snd (verify_and_stage e w')))"
proof -
  have "\<not> prefix (archive_path e) (otter_bin_path e)"
    using bin_outside [of "''otterlang.deb''" e "[]"] by (simp add: archive_path_def)
  with assms(3) have bin: "fs w (otter_bin_path e) = fs w' (otter_bin_path e)"
    by (rule agree_offD)
  show ?thesis
  proof (cases "fs w (otter_bin_path e) = None")
    case True
    with bin assms(3) show ?thesis by (simp add: verify_missing)
  next
    case False
    with bin populate_agree [OF assms] show ?thesis by (simp add: verify_present)
  qed
qed

subsection \<open>Lines 5 to 14 with a yes for an answer\<close>

lemma deb_not_prefix_parent: "\<not> prefix (otter_deb_path e) (parent (otter_deb_path e))"
  by (simp add: otter_deb_path_def parent_snoc2)

lemma clear_or_create_accepted_in_dir:
  assumes "is_dir (fs w) (parent (otter_deb_path e))" "fs w (otter_deb_path e) \<noteq> None"
    "stdin w = r # rs" "lower r = ''y''"
  shows "fst (clear_or_create e w) = None \<and>
    fs (snd (clear_or_create e w)) =
      (\<lambda>q. if prefix (otter_deb_path e) q then None else fs w q)(otter_deb_path e \<mapsto> Dir)"
proof -
  from assms(2) obtain n where "fs w (otter_deb_path e) = Some n" by auto
  moreover have "\<not> prefix (otter_deb_path e) (parent (otter_deb_path e))"
    by (simp add: otter_deb_path_def parent_snoc2)
  ultimately show ?thesis
    using assms(1,3,4)
    by (simp add: clear_or_create_def clear_existing_def create_missing_def os_path_exists_def
      input_def print_def os_system_def rm_r_def os_mkdir_def is_dir_def cong: if_cong)
qed

lemma clear_or_create_absent:
  assumes "fs w (otter_deb_path e) = None"
  shows "fst (clear_or_create e w) = None \<and>
      fs (snd (clear_or_create e w)) =
        (fs w)(parent (otter_deb_path e) \<mapsto> Dir, otter_deb_path e \<mapsto> Dir) \<or>
    fst (clear_or_create e w) \<noteq> None \<and> fs (snd (clear_or_create e w)) = fs w"
  using assms deb_neq_parent [of e]
  by (auto simp: clear_or_create_def clear_existing_def create_missing_def os_path_exists_def
      print_def os_mkdir_def is_dir_def map_upd_triv)

lemma clear_or_create_absent_same:
  assumes "fs w (otter_deb_path e) = None" "fs w' = fs w"
  shows "fst (clear_or_create e w') = fst (clear_or_create e w) \<and>
    fs (snd (clear_or_create e w')) = fs (snd (clear_or_create e w))"
  using assms deb_neq_parent [of e]
  by (auto simp: clear_or_create_def clear_existing_def create_missing_def os_path_exists_def
      print_def os_mkdir_def is_dir_def)

lemma cleared_facts:
  "is_dir (cleared e t) (otter_deb_path e)"
  "is_dir (cleared e t) (parent (otter_deb_path e))"
  "cleared e t (otter_deb_path e @ x # q) = None"
  "\<not> prefix (parent (otter_deb_path e)) p \<Longrightarrow> cleared e t p = t p"
proof -
  show "is_dir (cleared e t) (otter_deb_path e)"
    by (simp add: cleared_def is_dir_def)
  show "is_dir (cleared e t) (parent (otter_deb_path e))"
    using deb_neq_parent [of e] by (simp add: cleared_def is_dir_def)
  show "cleared e t (otter_deb_path e @ x # q) = None"
    by (simp add: cleared_def otter_deb_path_def parent_snoc2)
  show "cleared e t p = t p" if "\<not> prefix (parent (otter_deb_path e)) p"
  proof -
    from that have "p \<noteq> parent (otter_deb_path e)" by auto
    moreover from that have "\<not> prefix (otter_deb_path e) p"
      by (auto simp: otter_deb_path_def parent_snoc2 prefix_def)
    ultimately show ?thesis by (auto simp: cleared_def)
  qed
qed

lemma accepted_step2:
  assumes wf: "wf_fs (fs w)" and yes: "stdin w = a # r" "lower a = ''y''"
  shows "fst (clear_or_create e w) = None \<and> fs (snd (clear_or_create e w)) = cleared e (fs w) \<or>
    fst (clear_or_create e w) \<noteq> None \<and> fs (snd (clear_or_create e w)) = fs w \<and>
      fs w (otter_deb_path e) = None"
proof (cases "fs w (otter_deb_path e) = None")
  case True
  have "(fs w)(parent (otter_deb_path e) \<mapsto> Dir, otter_deb_path e \<mapsto> Dir) = cleared e (fs w)"
  proof
    fix q
    show "((fs w)(parent (otter_deb_path e) \<mapsto> Dir, otter_deb_path e \<mapsto> Dir)) q = cleared e (fs w) q"
      using wf_fs_absent_below [OF wf True] by (auto simp: cleared_def prefix_def)
  qed
  with clear_or_create_absent [OF True] True show ?thesis by auto
next
  case False
  from wf False have dir: "is_dir (fs w) (parent (otter_deb_path e))" by (rule wf_fs_parent)
  have "(\<lambda>q. if prefix (otter_deb_path e) q then None else fs w q)(otter_deb_path e \<mapsto> Dir) =
      cleared e (fs w)"
  proof
    fix q
    show "((\<lambda>q. if prefix (otter_deb_path e) q then None else fs w q)(otter_deb_path e \<mapsto> Dir)) q =
        cleared e (fs w) q"
      using dir deb_not_prefix_parent [of e] by (auto simp: cleared_def is_dir_def)
  qed
  with clear_or_create_accepted_in_dir [OF dir False yes] show ?thesis by simp
qed

text \<open>What lines 16 to 33 leave alone.\<close>

lemma stage_frame:
  assumes dir: "is_dir (fs w) (otter_deb_path e)"
    and q: "\<not> prefix (otter_deb_path e) q" "\<not> prefix (archive_path e) q"
  shows "fs (snd (verify_and_stage e w)) q = fs w q"
proof (cases "fs w (otter_bin_path e) = None")
  case True
  then show ?thesis by (simp add: verify_missing)
next
  case False
  from q(1) have ne: "q \<noteq> otter_deb_path e @ zs" for zs by auto
  have "fs (run_all e (copy_commands e) (snd (create_bin e w))) q = fs (snd (create_bin e w)) q"
    using ne [of "[]"] ne by (intro copies_frame) auto
  then show ?thesis
    using False archive_frame [OF q(2)] ne
    by (simp add: verify_present populate_in_dir(2) [OF dir] create_bin_frame)
qed

lemma stage_keeps_deb:
  assumes "is_dir (fs w) (otter_deb_path e)"
  shows "is_dir (fs (snd (verify_and_stage e w))) (otter_deb_path e)"
proof (cases "fs w (otter_bin_path e) = None")
  case True
  with assms show ?thesis by (simp add: verify_missing)
next
  case False
  with populate_frame [OF assms, of "[]"] assms show ?thesis
    by (auto simp: verify_present is_dir_def)
qed

lemma archive_path_not_parent: "\<not> prefix (archive_path e) (parent (otter_deb_path e))"
  by (simp add: archive_path_def otter_deb_path_def parent_snoc2)

lemma inputs_outside:
  "\<not> prefix (parent (otter_deb_path e)) (otter_bin_path e)"
  "\<not> prefix (otter_deb_path e) (otter_bin_path e)"
  "\<not> prefix (archive_path e) (otter_bin_path e)"
  "n \<in> set metadata_names \<Longrightarrow> \<not> prefix (parent (otter_deb_path e)) (package_dir e @ [n])"
  "\<not> prefix (otter_deb_path e) (package_dir e @ [n])"
  "n \<in> set metadata_names \<Longrightarrow> \<not> prefix (archive_path e) (package_dir e @ [n])"
proof -
  show "\<not> prefix (parent (otter_deb_path e)) (otter_bin_path e)"
    using bin_outside [of "''otterlang''" e "[]"] by (simp add: parent_deb)
  show "\<not> prefix (otter_deb_path e) (otter_bin_path e)"
    by (rule deb_not_prefix_bin)
  show "\<not> prefix (archive_path e) (otter_bin_path e)"
    using bin_outside [of "''otterlang.deb''" e "[]"] by (simp add: archive_path_def)
  show "\<not> prefix (parent (otter_deb_path e)) (package_dir e @ [n])" if "n \<in> set metadata_names"
    using metadata_plain [OF that] by (auto simp: parent_deb)
  show "\<not> prefix (otter_deb_path e) (package_dir e @ [n])"
    by (simp add: otter_deb_path_def)
  show "\<not> prefix (archive_path e) (package_dir e @ [n])" if "n \<in> set metadata_names"
    using that by (rule archive_path_not_source)
qed

text \<open>The archiver is the last thing a run does.\<close>

lemma archiver_ran_finished:
  assumes ran: "System (archive_command e) k \<in> set (trace (snd (build e w)))" and "trace w = []"
  shows "fst (build e w) = Finished"
proof -
  let ?w1 = "snd (clear_or_create e w)"
  have early: "System (archive_command e) k \<notin> set (trace ?w1)"
    using build_trace_start [OF assms(2), of e] by (auto simp: archive_command_def)
  show ?thesis
  proof (rule build_cases [of e w])
    fix err assume "build e w = (Uncaught err, ?w1)"
    with ran early show ?thesis by simp
  next
    assume ok: "fst (clear_or_create e w) = None" and b: "build e w = verify_and_stage e ?w1"
    show ?thesis
    proof (cases "fs ?w1 (otter_bin_path e) = None")
      case True
      with ran early b show ?thesis by (simp add: verify_missing)
    next
      case False
      show ?thesis
      proof (cases "fst (create_bin e ?w1)")
        case None
        with False b show ?thesis by (simp add: verify_present populate_finished)
      next
        case (Some err)
        with create_bin_trace [of e ?w1] early
        have "System (archive_command e) k \<notin> set (trace (snd (create_bin e ?w1)))" by auto
        with ran b False Some show ?thesis by (simp add: verify_present populate_uncaught)
      qed
    qed
  qed
qed

subsection \<open>The example checkout\<close>

lemmas table_defs = checkout_table_def metadata_table_def binary_table_def stale_table_def

lemma example_paths:
  "package_dir example_env = [''repo'', ''package'']"
  "otter_deb_path example_env = [''repo'', ''package'', ''otterlang'', ''DEBIAN'']"
  "otter_bin_path example_env = [''repo'', ''target'', ''release'', ''otter'']"
  "archive_path example_env = [''repo'', ''package'', ''otterlang.deb'']"
  by (simp_all add: example_env_def package_dir_def otter_deb_path_def otter_bin_path_def
      archive_path_def parent_def)


lemma wf_stale_fs: "wf_fs stale_fs"
  unfolding stale_fs_def by (rule wf_table_wf_fs) (simp add: wf_table_def table_defs parent_def)

lemma wf_fresh_fs_no_binary: "wf_fs fresh_fs_no_binary"
  unfolding fresh_fs_no_binary_def
  by (rule wf_table_wf_fs) (simp add: wf_table_def table_defs parent_def)

lemma wf_stale_fs_no_binary: "wf_fs stale_fs_no_binary"
  unfolding stale_fs_no_binary_def
  by (rule wf_table_wf_fs) (simp add: wf_table_def table_defs parent_def)

lemma wf_bare_fs: "wf_fs bare_fs"
  unfolding bare_fs_def by (rule wf_table_wf_fs) (simp add: wf_table_def table_defs parent_def)

lemma stale_eof:
  "clear_or_create example_env (start stale_fs_no_binary []) =
    (Some EOFError, start stale_fs_no_binary []
       \<lparr>stdout := stdout (start stale_fs_no_binary []) @ [announcement example_env @ newline, clear_prompt]\<rparr>)"
  by (rule clear_or_create_eof) (simp_all add: example_paths stale_fs_no_binary_def table_defs)

lemma stale_eof_run:
  "run example_env stale_fs_no_binary [] =
    (Uncaught EOFError, start stale_fs_no_binary []
       \<lparr>stdout := [announcement example_env @ newline, clear_prompt]\<rparr>)"
  by (simp add: run_def build_def stale_eof)

lemma fresh_no_binary_created:
  "clear_or_create example_env (start fresh_fs_no_binary []) =
    (None, start fresh_fs_no_binary []
      \<lparr>stdout := [announcement example_env @ newline],
       fs := fresh_fs_no_binary(parent (otter_deb_path example_env) \<mapsto> Dir,
         otter_deb_path example_env \<mapsto> Dir),
       trace := [Mkdir (parent (otter_deb_path example_env)), Mkdir (otter_deb_path example_env)]\<rparr>)"
proof -
  have "fs (start fresh_fs_no_binary []) (otter_deb_path example_env) = None"
    "\<not> is_file (fs (start fresh_fs_no_binary [])) (parent (otter_deb_path example_env))"
    "is_dir (fs (start fresh_fs_no_binary [])) (package_dir example_env)"
    "fs (start fresh_fs_no_binary []) (parent (otter_deb_path example_env)) = None"
    by (simp_all add: example_paths fresh_fs_no_binary_def table_defs is_file_def is_dir_def parent_def)
  from clear_or_create_created [OF this(1-3)] this(4) show ?thesis by simp
qed

lemma fresh_no_binary_bin: "fresh_fs_no_binary (otter_bin_path example_env) = None"
  by (simp add: example_paths fresh_fs_no_binary_def table_defs)

lemma stale_fs_facts:
  "is_dir stale_fs (otter_deb_path example_env)"
  "stale_fs (otter_bin_path example_env) = Some (File [0x7F, 0x45, 0x4C, 0x46])"
  "stale_fs (package_dir example_env @ [''control'']) = Some (File [1])"
  "stale_fs (otter_deb_path example_env @ [''control'']) = Some (File [9])"
  "stale_fs (otter_deb_path example_env @ [''postinst'']) = Some (File [7])"
  by (simp_all add: example_paths stale_fs_def table_defs is_dir_def)




lemma example_env_fields:
  "this_file example_env = [''repo'', ''package'', ''src'', ''build.py'']"
  "dpkg_deb example_env = example_archiver"
  by (simp_all add: example_env_def)

lemma example_archiver_control:
  "dpkg_deb example_env (subtree u (parent (otter_deb_path example_env))) =
     (case u (otter_deb_path example_env @ [''control'']) of
        Some (File b) \<Rightarrow> Some (''otterlang_0.1.0_amd64.deb'', 0x21 # b)
      | _ \<Rightarrow> None)"
  by (simp add: example_env_fields example_archiver_def subtree_def example_paths parent_def)

lemma bare_fs_facts:
  "bare_fs (this_file example_env) \<noteq> None"
  "bare_fs (otter_deb_path example_env) = None"
  "\<not> is_file bare_fs (parent (otter_deb_path example_env))"
  "bare_fs (otter_bin_path example_env) = Some (File [0x7F, 0x45, 0x4C, 0x46])"
  "bare_fs (package_dir example_env @ [''control'']) = None"
  "bare_fs (archive_path example_env) = None"
  by (simp_all add: example_paths bare_fs_def table_defs is_file_def parent_def example_env_fields)



lemma bare_fs_run:
  "fst (run example_env bare_fs []) = Finished"
  "fs (snd (run example_env bare_fs [])) (otter_deb_path example_env @ [''control'']) = None"
  "fs (snd (run example_env bare_fs [])) (archive_path example_env) = None"
  "System (archive_command example_env) 2 \<in> set (trace (snd (run example_env bare_fs [])))"
proof -
  let ?e = example_env
  have "bare_fs (otter_bin_path ?e) \<noteq> None" by (simp add: bare_fs_facts)
  with wf_bare_fs bare_fs_facts(1,2,3) obtain w1
    where run: "run ?e bare_fs [] = populate_and_archive ?e w1"
      and fs1: "fs w1 = bare_fs(parent (otter_deb_path ?e) \<mapsto> Dir, otter_deb_path ?e \<mapsto> Dir)"
    by (rule fresh_run)
  have dir: "is_dir (fs w1) (otter_deb_path ?e)"
    by (simp add: fs1 is_dir_def)
  let ?wb = "snd (create_bin ?e w1)"
  let ?wc = "run_all ?e (copy_commands ?e) ?wb"
  have n: "''control'' \<in> set metadata_names" by (simp add: metadata_names_def)
  have "fs w1 (package_dir ?e @ [''control'']) = None"
    using bare_fs_facts(5) by (simp add: fs1 example_paths parent_def)
  then have "fs ?wb (package_dir ?e @ [''control'']) = None"
    using source_neq_deb [of ?e "''control''" "[''bin'']"] by (simp add: create_bin_frame)
  then have "fs ?wc (otter_deb_path ?e @ [''control'']) = fs ?wb (otter_deb_path ?e @ [''control''])"
    using n by (intro copies_skip_metadata) simp_all
  also have "\<dots> = fs w1 (otter_deb_path ?e @ [''control''])"
    by (simp add: create_bin_frame)
  also have "\<dots> = None"
    unfolding fs1 using wf_bare_fs bare_fs_facts(2) by (rule made_below)
  finally have absent: "fs ?wc (otter_deb_path ?e @ [''control'']) = None" .
  then have failed: "run_cmd ?e (archive_command ?e) (fs ?wc) = (2, fs ?wc)"
    by (intro archive_fails) (simp add: example_archiver_control)
  then have final: "fs (snd (run ?e bare_fs [])) = fs ?wc"
    by (simp add: run populate_in_dir(2) [OF dir])
  have "fs ?wc (archive_path ?e) = fs w1 (archive_path ?e)"
    using dir by (rule populate_leaves_archive_path)
  also have "\<dots> = None"
    using bare_fs_facts(6) by (simp add: fs1 example_paths parent_def)
  finally have none: "fs ?wc (archive_path ?e) = None" .
  show "fst (run ?e bare_fs []) = Finished"
    by (simp add: run populate_in_dir(1) [OF dir])
  show "fs (snd (run ?e bare_fs [])) (otter_deb_path ?e @ [''control'']) = None"
    using absent by (simp add: final)
  show "fs (snd (run ?e bare_fs [])) (archive_path ?e) = None"
    using none by (simp add: final)
  show "System (archive_command ?e) 2 \<in> set (trace (snd (run ?e bare_fs [])))"
    using failed by (simp add: run populate_in_dir(2) [OF dir])
qed

subsection \<open>The claims\<close>




text \<open>
  The claim as stated fails where the staging directory exists and standard input is at its
  end: line 7 raises \<^verbatim>\<open>EOFError\<close>, nobody catches it, and the message of line 18 is
  never written although the release binary is missing.
\<close>

theorem C2_counterexample:
  "stale_fs_no_binary (otter_bin_path example_env) = None \<and>
   fst (run example_env stale_fs_no_binary []) = Uncaught EOFError \<and>
   stdout (snd (run example_env stale_fs_no_binary [])) =
     [announcement example_env @ newline, clear_prompt] \<and>
   missing_binary_message @ newline \<notin> set (stdout (snd (run example_env stale_fs_no_binary [])))"
proof -
  have "stale_fs_no_binary (otter_bin_path example_env) = None"
    by (simp add: example_paths stale_fs_no_binary_def table_defs)
  then show ?thesis
    using message_not_announcement [of example_env] message_not_prompt
    by (simp add: stale_eof_run)
qed

text \<open>
  C2, as amended. In every run in which the release binary does not exist, no copy command
  and no archiver is run, and the run does not reach the end of the script. When lines 5 to 14
  raise nothing, the check of line 17 is reached: the run stops there with \<^verbatim>\<open>exit()\<close>,
  the message is the last thing written, and the filesystem is the one lines 5 to 14 left.
  (When line 7 or an \<^verbatim>\<open>os.mkdir\<close> of lines 13 and 14 raises, the run ends before the
  check and writes no message: see the counterexample.)
\<close>

theorem C2_missing_binary_stops_before_copying:
  assumes "t (otter_bin_path e) = None"
  shows "fst (run e t ls) \<noteq> Finished \<and>
    (\<forall>c\<in>set (copy_commands e). \<not> ran c (snd (run e t ls))) \<and>
    \<not> ran (archive_command e) (snd (run e t ls)) \<and>
    (fst (clear_or_create e (start t ls)) = None \<longrightarrow>
       fst (run e t ls) = SystemExit None \<and>
       stdout (snd (run e t ls)) =
         stdout (snd (clear_or_create e (start t ls))) @ [missing_binary_message @ newline] \<and>
       fs (snd (run e t ls)) = fs (snd (clear_or_create e (start t ls))))"
proof -
  have bin: "fs (start t ls) (otter_bin_path e) = None"
    using assms by simp
  have "fst (run e t ls) \<noteq> Finished"
    using finished_binary_present [of e "start t ls"] bin by (auto simp: run_def)
  moreover have "\<not> ran c (snd (run e t ls))"
    if "c \<in> set (copy_commands e) \<or> c = archive_command e" for c
    using no_copy_before_check [of "start t ls" c e] that
    by (simp add: run_def ran_def build_missing_binary_trace [OF bin])
  ultimately show ?thesis
    by (auto simp: run_def build_missing_binary [OF bin])
qed

theorem C2_witness:
  "fresh_fs_no_binary (otter_bin_path example_env) = None \<and>
   fst (run example_env fresh_fs_no_binary []) = SystemExit None \<and>
   \<not> ran (archive_command example_env) (snd (run example_env fresh_fs_no_binary [])) \<and>
   stdout (snd (run example_env fresh_fs_no_binary [])) =
     [announcement example_env @ newline, missing_binary_message @ newline]"
  using C2_missing_binary_stops_before_copying [where t = fresh_fs_no_binary and e = example_env and ls = "[]"]
    fresh_no_binary_bin
  by (simp add: fresh_no_binary_created)

text \<open>
  C3. The exit status of the archiver is never inspected. \<^verbatim>\<open>os.system\<close> returns the
  status and line 33 drops it, so nothing of a run but the filesystem and the log depends on
  the archiver: whatever archiver is put in, one that fails or one that succeeds, the run ends
  the same way, with the same exit status and the same text written. And whenever the archiver
  was run, with whatever exit code \<open>k\<close>, the run has reached the end of the script and
  its own exit status is 0.
\<close>

theorem C3_archiver_status_never_inspected:
  "fst (run (e\<lparr>dpkg_deb := a\<rparr>) t ls) = fst (run (e\<lparr>dpkg_deb := a'\<rparr>) t ls) \<and>
   stdout (snd (run (e\<lparr>dpkg_deb := a\<rparr>) t ls)) = stdout (snd (run (e\<lparr>dpkg_deb := a'\<rparr>) t ls)) \<and>
   exit_status (fst (run (e\<lparr>dpkg_deb := a\<rparr>) t ls)) = exit_status (fst (run (e\<lparr>dpkg_deb := a'\<rparr>) t ls)) \<and>
   (System (archive_command e) k \<in> set (trace (snd (run e t ls))) \<longrightarrow>
      fst (run e t ls) = Finished \<and> exit_status (fst (run e t ls)) = 0)"
  using archiver_ran_finished [of e k "start t ls"]
  by (simp add: run_def build_outcome_archiver build_stdout_archiver)

theorem C3_witness:
  "System (archive_command example_env) 2 \<in> set (trace (snd (run example_env bare_fs []))) \<and>
   fst (run example_env bare_fs []) = Finished \<and>
   exit_status (fst (run example_env bare_fs [])) = 0"
  using C3_archiver_status_never_inspected [where e = example_env and t = bare_fs and ls = "[]" and k = 2]
    bare_fs_run(4)
  by blast






text \<open>
  C6. Run the script, and run it again on the filesystem the first run left, each time with
  \<^verbatim>\<open>y\<close> or \<^verbatim>\<open>Y\<close> as the answer waiting on standard input. The tree below the staging
  directory is the same after the second run as after the first. The inputs of the second run
  are those of the first: the first run leaves the release binary and the four metadata
  sources as they were.
\<close>

theorem C6_two_runs_same_staging_directory:
  assumes wf: "wf_fs t" and yes1: "a1 = ''y'' \<or> a1 = ''Y''" and yes2: "a2 = ''y'' \<or> a2 = ''Y''"
  shows "subtree (fs (snd (run e (fs (snd (run e t (a1 # r1)))) (a2 # r2)))) (otter_deb_path e) =
      subtree (fs (snd (run e t (a1 # r1)))) (otter_deb_path e) \<and>
    fs (snd (run e t (a1 # r1))) (otter_bin_path e) = t (otter_bin_path e) \<and>
    (\<forall>n\<in>set metadata_names.
       fs (snd (run e t (a1 # r1))) (package_dir e @ [n]) = t (package_dir e @ [n]))"
proof -
  define t1 where "t1 = fs (snd (run e t (a1 # r1)))"
  define t2 where "t2 = fs (snd (run e t1 (a2 # r2)))"
  let ?w0 = "start t (a1 # r1)"
  let ?w1 = "snd (clear_or_create e ?w0)"
  let ?v0 = "start t1 (a2 # r2)"
  let ?w2 = "snd (clear_or_create e ?v0)"
  from yes1 yes2 have low: "lower a1 = ''y''" "lower a2 = ''y''"
    by (simp_all add: lower_eq_y)
  have goal: "subtree t2 (otter_deb_path e) = subtree t1 (otter_deb_path e) \<and>
    t1 (otter_bin_path e) = t (otter_bin_path e) \<and>
    (\<forall>n\<in>set metadata_names. t1 (package_dir e @ [n]) = t (package_dir e @ [n]))"
  proof -
    from accepted_step2 [of ?w0 a1 r1 e] wf low(1)
    consider (made) "fst (clear_or_create e ?w0) = None" "fs ?w1 = cleared e t"
      | (failed) "fst (clear_or_create e ?w0) \<noteq> None" "fs ?w1 = t" "t (otter_deb_path e) = None"
      by auto
    then show ?thesis
    proof cases
      case made
      have "run e t (a1 # r1) = verify_and_stage e ?w1"
        using made(1) by (cases "clear_or_create e ?w0") (simp add: run_def build_def)
      then have run1: "t1 = fs (snd (verify_and_stage e ?w1))"
        by (simp add: t1_def)
      have dir1: "is_dir (fs ?w1) (otter_deb_path e)"
        by (simp add: made(2) cleared_facts(1))
      have frame1: "t1 q = cleared e t q"
        if "\<not> prefix (otter_deb_path e) q" "\<not> prefix (archive_path e) q" for q
        using stage_frame [OF dir1 that] by (simp add: run1 made(2))
      have inputs: "t1 q = t q"
        if "\<not> prefix (parent (otter_deb_path e)) q" "\<not> prefix (otter_deb_path e) q"
          "\<not> prefix (archive_path e) q" for q
        using frame1 [OF that(2,3)] cleared_facts(4) [OF that(1)] by simp
      have deb1: "is_dir t1 (otter_deb_path e)"
        using stage_keeps_deb [OF dir1] by (simp add: run1)
      have par1: "is_dir (fs ?v0) (parent (otter_deb_path e))"
        using frame1 [OF deb_not_prefix_parent archive_path_not_parent] cleared_facts(2) [of e t]
        by (simp add: is_dir_def)
      from deb1 have ex1: "fs ?v0 (otter_deb_path e) \<noteq> None" by (simp add: is_dir_def)
      have in2: "stdin ?v0 = a2 # r2" by simp
      from clear_or_create_accepted_in_dir [OF par1 ex1 in2 low(2)]
      have ok2: "fst (clear_or_create e ?v0) = None"
        and fs2: "fs ?w2 = (\<lambda>q. if prefix (otter_deb_path e) q then None else t1 q)
          (otter_deb_path e \<mapsto> Dir)"
        by (simp_all cong: if_cong)
      have "run e t1 (a2 # r2) = verify_and_stage e ?w2"
        using ok2 by (cases "clear_or_create e ?v0") (simp add: run_def build_def)
      then have run2: "t2 = fs (snd (verify_and_stage e ?w2))"
        by (simp add: t2_def)
      have dir2: "is_dir (fs ?w2) (otter_deb_path e)"
        by (simp add: fs2 is_dir_def)
      have "agree_off (archive_path e) (fs ?w1) (fs ?w2)"
        unfolding agree_off_def
      proof (intro allI impI)
        fix q assume off: "\<not> prefix (archive_path e) q"
        show "fs ?w1 q = fs ?w2 q"
        proof (cases "prefix (otter_deb_path e) q")
          case True
          then obtain zs where q: "q = otter_deb_path e @ zs" by (auto simp: prefix_def)
          show ?thesis
          proof (cases zs)
            case Nil
            with q dir1 show ?thesis by (simp add: fs2 is_dir_def)
          next
            case (Cons x xs)
            with q cleared_facts(3) [of e t x xs] show ?thesis
              by (simp add: made(2) fs2)
          qed
        next
          case False
          with frame1 [OF False off] show ?thesis
            by (auto simp: made(2) fs2)
        qed
      qed
      with dir1 dir2 have "agree_off (archive_path e) (fs (snd (verify_and_stage e ?w1)))
          (fs (snd (verify_and_stage e ?w2)))"
        by (rule stage_agree)
      then have "agree_off (archive_path e) t1 t2"
        by (simp only: run1 [symmetric] run2 [symmetric])
      then have "t2 (otter_deb_path e @ q) = t1 (otter_deb_path e @ q)" for q
        using archive_path_not_below_deb [of e q] by (simp add: agree_off_def)
      then have "subtree t2 (otter_deb_path e) = subtree t1 (otter_deb_path e)"
        by (simp add: subtree_def)
      with inputs inputs_outside show ?thesis by simp
    next
      case failed
      then obtain err where err: "fst (clear_or_create e ?w0) = Some err" by auto
      then have "run e t (a1 # r1) = (Uncaught err, ?w1)"
        by (cases "clear_or_create e ?w0") (simp add: run_def build_def)
      then have t1: "t1 = t" by (simp add: t1_def failed(2))
      have absent: "fs ?w0 (otter_deb_path e) = None" using failed(3) by simp
      from clear_or_create_absent_same [OF absent, of "start t (a2 # r2)"]
      have "fst (clear_or_create e (start t (a2 # r2))) = Some err"
        "fs (snd (clear_or_create e (start t (a2 # r2)))) = t"
        by (simp_all add: err failed(2))
      then have "fs (snd (run e t (a2 # r2))) = t"
        by (cases "clear_or_create e (start t (a2 # r2))") (simp add: run_def build_def)
      then show ?thesis by (simp add: t2_def t1)
    qed
  qed
  then show ?thesis by (simp add: t2_def t1_def)
qed

theorem C6_witness:
  "subtree (fs (snd (run example_env (fs (snd (run example_env stale_fs [''y'']))) [''Y''])))
     (otter_deb_path example_env) =
   subtree (fs (snd (run example_env stale_fs [''y'']))) (otter_deb_path example_env) \<and>
   fs (snd (run example_env stale_fs [''y''])) (otter_bin_path example_env) =
     Some (File [0x7F, 0x45, 0x4C, 0x46])"
  using C6_two_runs_same_staging_directory
    [where t = stale_fs and e = example_env and ?a1.0 = "''y''" and ?a2.0 = "''Y''"
      and ?r1.0 = "[]" and ?r2.0 = "[]", OF wf_stale_fs]
    stale_fs_facts(2)
  by simp



text \<open>
  C8. A run that makes the staging directory, be it for the first time or after clearing it,
  and finds the release binary missing stops with \<^verbatim>\<open>exit()\<close>, and the directory is
  still there when it has stopped: the filesystem at the end is the one lines 5 to 14 left,
  nothing is taken back.
\<close>

theorem C8_created_directory_persists:
  assumes "t (otter_bin_path e) = None"
    "Mkdir (otter_deb_path e) \<in> set (trace (snd (run e t ls)))"
  shows "fst (run e t ls) = SystemExit None \<and>
    fs (snd (run e t ls)) (otter_deb_path e) = Some Dir \<and>
    fs (snd (run e t ls)) = fs (snd (clear_or_create e (start t ls)))"
proof -
  have bin: "fs (start t ls) (otter_bin_path e) = None"
    using assms(1) by simp
  from assms(2) have "Mkdir (otter_deb_path e) \<in> set (trace (snd (clear_or_create e (start t ls))))"
    by (simp add: run_def build_missing_binary_trace [OF bin])
  then have ok: "fst (clear_or_create e (start t ls)) = None"
    and dir: "fs (snd (clear_or_create e (start t ls))) (otter_deb_path e) = Some Dir"
    using created_then_ok [of e "start t ls"] by simp_all
  show ?thesis
    using dir by (simp add: run_def build_missing_binary [OF bin ok])
qed

theorem C8_witness:
  "fresh_fs_no_binary (otter_deb_path example_env) = None \<and>
   fst (run example_env fresh_fs_no_binary []) = SystemExit None \<and>
   fs (snd (run example_env fresh_fs_no_binary [])) (otter_deb_path example_env) = Some Dir"
proof -
  have "trace (snd (run example_env fresh_fs_no_binary [])) =
      [Mkdir (parent (otter_deb_path example_env)), Mkdir (otter_deb_path example_env)]"
    using fresh_no_binary_bin
    by (simp add: run_def build_missing_binary_trace fresh_no_binary_created)
  then have made: "Mkdir (otter_deb_path example_env) \<in> set (trace (snd (run example_env fresh_fs_no_binary [])))"
    by simp
  have absent: "fresh_fs_no_binary (otter_deb_path example_env) = None"
    by (simp add: example_paths fresh_fs_no_binary_def table_defs)
  from C8_created_directory_persists
    [where t = fresh_fs_no_binary and e = example_env and ls = "[]", OF fresh_no_binary_bin made]
    absent
  show ?thesis by blast
qed

text \<open>
  C9. With the staging directory in place, the answer counts as a yes exactly when it is the
  string \<^verbatim>\<open>y\<close> or the string \<^verbatim>\<open>Y\<close>: only then is \<^verbatim>\<open>rm -r\<close> run on the
  staging directory. After any other answer (\<^verbatim>\<open>yes\<close>, an answer with blanks around
  it, the empty line) lines 5 to 14 raise nothing, leave the filesystem as it was and make no
  directory.
\<close>

theorem C9_only_y_or_Y_is_affirmative:
  assumes "t (otter_deb_path e) \<noteq> None"
  shows "(lower r = ''y'' \<longleftrightarrow> r = ''y'' \<or> r = ''Y'') \<and>
    (ran (Rm_r (otter_deb_path e)) (snd (run e t (r # rs))) \<longleftrightarrow> r = ''y'' \<or> r = ''Y'') \<and>
    (r \<noteq> ''y'' \<and> r \<noteq> ''Y'' \<longrightarrow>
       fst (clear_or_create e (start t (r # rs))) = None \<and>
       fs (snd (clear_or_create e (start t (r # rs)))) = t \<and>
       trace (snd (clear_or_create e (start t (r # rs)))) = [])"
proof (cases "lower r = ''y''")
  case True
  from clear_or_create_accepted_trace [of "start t (r # rs)" e r rs] assms True
  have "ran (Rm_r (otter_deb_path e)) (snd (clear_or_create e (start t (r # rs))))"
    by (auto simp: ran_iff)
  with True show ?thesis
    by (auto simp: run_def ran_rm_build lower_eq_y)
next
  case False
  from clear_or_create_declined [of "start t (r # rs)" e r rs] assms False
  have "clear_or_create e (start t (r # rs)) =
    (None, start t (r # rs)\<lparr>stdout := stdout (start t (r # rs)) @ [announcement e @ newline, clear_prompt],
       stdin := rs\<rparr>)" by simp
  then have "fst (clear_or_create e (start t (r # rs))) = None"
    "fs (snd (clear_or_create e (start t (r # rs)))) = t"
    "trace (snd (clear_or_create e (start t (r # rs)))) = []"
    by simp_all
  moreover from this(3) have "\<not> ran (Rm_r (otter_deb_path e)) (snd (clear_or_create e (start t (r # rs))))"
    by (simp add: ran_def)
  ultimately show ?thesis
    using False by (simp add: run_def ran_rm_build lower_eq_y)
qed

theorem C9_witness:
  "\<not> ran (Rm_r (otter_deb_path example_env)) (snd (run example_env stale_fs [''yes''])) \<and>
   \<not> ran (Rm_r (otter_deb_path example_env)) (snd (run example_env stale_fs ['' y''])) \<and>
   \<not> ran (Rm_r (otter_deb_path example_env)) (snd (run example_env stale_fs [''''])) \<and>
   fs (snd (clear_or_create example_env (start stale_fs [''yes'']))) = stale_fs \<and>
   ran (Rm_r (otter_deb_path example_env)) (snd (run example_env stale_fs [''Y'']))"
proof -
  have ex: "stale_fs (otter_deb_path example_env) \<noteq> None"
    by (simp add: example_paths stale_fs_def table_defs)
  from C9_only_y_or_Y_is_affirmative [where t = stale_fs and e = example_env and r = "''yes''" and rs = "[]"]
    C9_only_y_or_Y_is_affirmative [where t = stale_fs and e = example_env and r = "'' y''" and rs = "[]"]
    C9_only_y_or_Y_is_affirmative [where t = stale_fs and e = example_env and r = "''''" and rs = "[]"]
    C9_only_y_or_Y_is_affirmative [where t = stale_fs and e = example_env and r = "''Y''" and rs = "[]"]
  show ?thesis using ex by simp
qed

text \<open>
  The claim as stated fails on the same input as before: the release binary is missing, yet
  the run ends with the uncaught \<^verbatim>\<open>EOFError\<close> of line 7, not with \<^verbatim>\<open>exit()\<close>,
  and its exit status is 1.
\<close>

theorem C10_counterexample:
  "stale_fs_no_binary (otter_bin_path example_env) = None \<and>
   fst (run example_env stale_fs_no_binary []) \<noteq> SystemExit None \<and>
   exit_status (fst (run example_env stale_fs_no_binary [])) = 1 \<and>
   exit_status Finished = 0"
proof -
  have "stale_fs_no_binary (otter_bin_path example_env) = None"
    by (simp add: example_paths stale_fs_no_binary_def table_defs)
  then show ?thesis
    by (simp add: stale_eof_run)
qed

text \<open>
  C10, as amended. When the release binary is missing and lines 5 to 14 raise nothing, the run
  ends with \<^verbatim>\<open>exit()\<close> without an argument: the exit status is 0, the exit status of a
  run that reaches the end of the script, and the message of line 18 is the last thing
  written, which no run that reaches the end ever writes. (A run that line 7 or an
  \<^verbatim>\<open>os.mkdir\<close> ends with an uncaught exception has exit status 1: see the
  counterexample.)
\<close>

theorem C10_missing_binary_exit_status_zero:
  assumes "t (otter_bin_path e) = None" "fst (clear_or_create e (start t ls)) = None"
  shows "fst (run e t ls) = SystemExit None \<and>
    exit_status (fst (run e t ls)) = 0 \<and>
    exit_status (fst (run e t ls)) = exit_status Finished \<and>
    last (stdout (snd (run e t ls))) = missing_binary_message @ newline \<and>
    (fst (run e t' ls') = Finished \<longrightarrow>
       missing_binary_message @ newline \<notin> set (stdout (snd (run e t' ls'))))"
proof -
  have bin: "fs (start t ls) (otter_bin_path e) = None"
    using assms(1) by simp
  show ?thesis
    using finished_no_message [of e t' ls']
    by (simp add: run_def build_missing_binary [OF bin assms(2)])
qed

theorem C10_witness:
  "exit_status (fst (run example_env fresh_fs_no_binary [])) = 0 \<and>
   last (stdout (snd (run example_env fresh_fs_no_binary []))) = missing_binary_message @ newline"
proof -
  have "fst (clear_or_create example_env (start fresh_fs_no_binary [])) = None"
    by (simp add: fresh_no_binary_created)
  with C10_missing_binary_exit_status_zero [where t = fresh_fs_no_binary and e = example_env and ls = "[]"]
    fresh_no_binary_bin
  show ?thesis by simp
qed

end
